theory Spec2Isabelle
  imports Complex_Main "HOL-Library.Sublist"
begin

section \<open>The vulnscanner programs\<close>

text \<open>
  The repository holds four revisions of one command-line program, each a complete
  \<^verbatim>\<open>package main\<close>:
  \<^item> the \<^emph>\<open>table program\<close>, \<^verbatim>\<open>src/main.go\<close> lines 1-326 (column table, OSC 8 links);
  \<^item> the \<^emph>\<open>box program of width 96\<close>, \<^verbatim>\<open>src/main.go\<close> lines 327-620;
  \<^item> the \<^emph>\<open>box program of width 100\<close>, \<^verbatim>\<open>src/unnamed/part_000\<close> (word wrapping);
  \<^item> the \<^emph>\<open>plain program\<close>, \<^verbatim>\<open>src/unnamed/part_001\<close> (no layout at all).
  Functions that are the same text in several revisions are modelled once; functions
  that differ are modelled once per variant, the table program keeping the source's
  name and the others carrying a suffix.

  A Go \<^verbatim>\<open>string\<close> is a sequence of bytes, modelled as \<^typ>\<open>string\<close> (a list of 8-bit
  \<^typ>\<open>char\<close>); \<^verbatim>\<open>len(s)\<close> is \<^term>\<open>length s\<close>. A Go \<^verbatim>\<open>int\<close> is modelled as
  \<^typ>\<open>int\<close>: every integer below is a length, a count or a small constant, far from
  the 64-bit bounds.
\<close>

subsection \<open>Data types\<close>

text \<open>
  \<^verbatim>\<open>type Vulnerability struct\<close> and \<^verbatim>\<open>type OSSIndexResponse struct\<close>. The score is a
  \<^verbatim>\<open>float64\<close> decoded from JSON, hence a finite number: it is modelled by the real
  number it denotes, on which Go's comparisons with the constants 9, 7 and 4 are exact.
\<close>

record Vulnerability =
  ID :: string
  Title :: string
  Description :: string
  CVSSScore :: real
  CVE :: string
  Reference :: string

record OSSIndexResponse =
  Coordinates :: string
  Vulnerabilities :: "Vulnerability list"

text \<open>A run-time panic of the Go program: a slice expression with a bound out of range.\<close>

datatype panic = SliceBoundsOutOfRange

text \<open>An error value of Go, with its message.\<close>

datatype error = Error string

text \<open>
  The collaborators outside the program, as a record of functions: the manifest file
  \<^verbatim>\<open>go.mod\<close> under a project path (what \<^verbatim>\<open>os.Open\<close> of
  \<^verbatim>\<open>filepath.Join(path, "go.mod")\<close> gives, the error or the file's bytes), the result of
  \<^verbatim>\<open>parsePomXML\<close> on \<^verbatim>\<open>pom.xml\<close> under a project path (the XML parser is a library), the
  result of \<^verbatim>\<open>checkVulnerabilities\<close> on a list of coordinates (the lookup service), and
  whether \<^verbatim>\<open>os.Stat\<close> reports a file under a project path as missing.
\<close>

record world =
  goModFile :: "string \<Rightarrow> error + string"
  pomXML :: "string \<Rightarrow> error + string list"
  ossIndex :: "string list \<Rightarrow> error + OSSIndexResponse list"
  notExist :: "string \<Rightarrow> string \<Rightarrow> bool"

subsection \<open>Colours and the severity classifier\<close>

text \<open>
  The escape sequences of the table program (\<^verbatim>\<open>ColorReset\<close>, ...) and of the box programs
  (\<^verbatim>\<open>Reset\<close>, ...). \<^verbatim>\<open>"\033"\<close> is the byte 27.
\<close>

definition ColorReset :: string where "ColorReset = CHR 0x1B # ''[0m''"
definition ColorBold :: string where "ColorBold = CHR 0x1B # ''[1m''"
definition ColorRed :: string where "ColorRed = CHR 0x1B # ''[31m''"
definition ColorYel :: string where "ColorYel = CHR 0x1B # ''[33m''"
definition ColorBlu :: string where "ColorBlu = CHR 0x1B # ''[34m''"

definition Red :: string where "Red = CHR 0x1B # ''[31m''"
definition Yellow :: string where "Yellow = CHR 0x1B # ''[33m''"
definition Cyan :: string where "Cyan = CHR 0x1B # ''[36m''"
definition Reset :: string where "Reset = CHR 0x1B # ''[0m''"
definition Bold :: string where "Bold = CHR 0x1B # ''[1m''"

text \<open>\<^verbatim>\<open>severityColor\<close> of the table program (\<^verbatim>\<open>src/main.go\<close> 128-139).\<close>

definition severityColor :: "real \<Rightarrow> string" where
  "severityColor score =
     (if score \<ge> 9.0 then ColorRed @ ColorBold
      else if score \<ge> 7.0 then ColorRed
      else if score \<ge> 4.0 then ColorYel
      else ColorReset)"

text \<open>\<^verbatim>\<open>severityColor\<close> of the box programs (\<^verbatim>\<open>src/unnamed/part_000\<close> 62-73).\<close>

definition severityColor_box :: "real \<Rightarrow> string" where
  "severityColor_box score =
     (if score \<ge> 9 then Red @ Bold
      else if score \<ge> 7 then Red
      else if score \<ge> 4 then Yellow
      else Reset)"

text \<open>
  The specification's words, for comparison with the code: the four tiers, the tier of a
  score, and the display emphasis of a tier (red and bold, red, yellow, none).
\<close>

datatype SeverityTier = Critical | High | Medium | Low

definition spec_tier :: "real \<Rightarrow> SeverityTier" where
  "spec_tier score =
     (if score \<ge> 9.0 then Critical
      else if 7.0 \<le> score \<and> score < 9.0 then High
      else if 4.0 \<le> score \<and> score < 7.0 then Medium
      else Low)"

fun spec_emphasis :: "SeverityTier \<Rightarrow> string" where
  "spec_emphasis Critical = CHR 0x1B # ''[31m'' @ CHR 0x1B # ''[1m''"
| "spec_emphasis High = CHR 0x1B # ''[31m''"
| "spec_emphasis Medium = CHR 0x1B # ''[33m''"
| "spec_emphasis Low = CHR 0x1B # ''[0m''"

subsection \<open>Truncation of a description\<close>

text \<open>
  \<^verbatim>\<open>truncate\<close> of the table program (\<^verbatim>\<open>src/main.go\<close> 93-98):
  \<^verbatim>\<open>if len(s) > max { return s[:max-3] + "..." }; return s\<close>.
  The slice \<^verbatim>\<open>s[:h]\<close> panics unless \<open>0 \<le> h \<le> len(s)\<close>; here \<open>h = max - 3 < len(s)\<close>, so
  it panics exactly when \<open>max - 3\<close> is negative. (A 64-bit \<open>max - 3\<close> that wraps
  around is a huge positive bound and panics as well.)
\<close>

definition truncate :: "string \<Rightarrow> int \<Rightarrow> panic + string" where
  "truncate s mx =
     (if int (length s) > mx
      then (if mx - 3 < 0 then Inl SliceBoundsOutOfRange
            else Inr (take (nat (mx - 3)) s @ ''...''))
      else Inr s)"

text \<open>
  \<^verbatim>\<open>truncate\<close> of the box programs (\<^verbatim>\<open>src/unnamed/part_000\<close> 149-154 and \<^verbatim>\<open>src/main.go\<close>
  401-406): \<^verbatim>\<open>if len(s) > l { return s[:l] + "..." }; return s\<close>.
\<close>

definition truncate_box :: "string \<Rightarrow> int \<Rightarrow> panic + string" where
  "truncate_box s l =
     (if int (length s) > l
      then (if l < 0 then Inl SliceBoundsOutOfRange
            else Inr (take (nat l) s @ ''...''))
      else Inr s)"

text \<open>A string ends with the ellipsis (\<^verbatim>\<open>strings.HasSuffix(r, "...")\<close>).\<close>

definition ellipsis_terminated :: "string \<Rightarrow> bool" where
  "ellipsis_terminated r = suffix ''...'' r"

subsection \<open>Library functions on strings\<close>

text \<open>
  \<^verbatim>\<open>strings.HasPrefix(s, p)\<close>; \<^verbatim>\<open>fmt\<close>'s \<^verbatim>\<open>%d\<close> of an integer (decimal digits, the
  recursion bounded by the number itself); and
  \<^verbatim>\<open>strings.ToLower\<close>. Go lower-cases a string of ASCII bytes by the byte map \<open>ToLower\<close>
  below; a string with a byte from 128 on it lower-cases by \<^verbatim>\<open>Map(unicode.ToLower, s)\<close>,
  rune by rune through the Unicode tables (U+0130 becomes \<^verbatim>\<open>i\<close>, so the bytes change
  and so may the length). The tables are not part of the model: \<open>ToLower_utf8\<close> takes
  that second path as the parameter \<open>mapLower\<close>, and it is \<^verbatim>\<open>strings.ToLower\<close> on every
  string when \<open>mapLower\<close> is \<^verbatim>\<open>Map(unicode.ToLower, s)\<close>. Whatever is proved of it is
  proved for every \<open>mapLower\<close>. The drivers compare the lower-cased selector with
  \<^verbatim>\<open>go\<close> and \<^verbatim>\<open>java\<close> only, and are written with \<open>ToLower\<close>.
\<close>

definition HasPrefix :: "string \<Rightarrow> string \<Rightarrow> bool" where
  "HasPrefix s p = prefix p s"

definition newline :: char where "newline = CHR 0x0A"

definition digitChar :: "nat \<Rightarrow> char" where
  "digitChar d = ''0123456789'' ! d"

fun showDigits :: "nat \<Rightarrow> nat \<Rightarrow> string" where
  "showDigits 0 n = []"
| "showDigits (Suc fuel) n =
     (if n < 10 then [digitChar n]
      else showDigits fuel (n div 10) @ [digitChar (n mod 10)])"

definition showInt :: "int \<Rightarrow> string" where
  "showInt i = (if i < 0 then ''-'' @ showDigits (nat (- i) + 1) (nat (- i))
                else showDigits (nat i + 1) (nat i))"

definition lowerByte :: "char \<Rightarrow> char" where
  "lowerByte c = (if 65 \<le> (of_char c :: nat) \<and> (of_char c :: nat) \<le> 90
                  then char_of ((of_char c :: nat) + 32) else c)"

definition ToLower :: "string \<Rightarrow> string" where
  "ToLower s = map lowerByte s"

definition isASCII :: "string \<Rightarrow> bool" where
  "isASCII s = list_all (\<lambda>c. (of_char c :: nat) < 128) s"

definition ToLower_utf8 :: "(string \<Rightarrow> string) \<Rightarrow> string \<Rightarrow> string" where
  "ToLower_utf8 mapLower s = (if isASCII s then ToLower s else mapLower s)"

subsection \<open>The module-manifest parser\<close>

text \<open>
  \<^verbatim>\<open>parseGoMod\<close> is the same text in all four programs (\<^verbatim>\<open>src/main.go\<close> 206-237,
  \<^verbatim>\<open>src/unnamed/part_001\<close> 38-71).

  The scanner: \<^verbatim>\<open>bufio.NewScanner(f)\<close> with the default split function
  \<^verbatim>\<open>bufio.ScanLines\<close>. A line ends at a line feed, one trailing carriage return is
  dropped, and data left after the last line feed is a final line. A line of 65536 bytes
  or more does not fit the scanner's buffer: \<^verbatim>\<open>Scan\<close> returns false there, and the program
  never looks at \<^verbatim>\<open>scanner.Err()\<close>, so the loop ends as at the end of the file.
\<close>

definition dropCR :: "string \<Rightarrow> string" where
  "dropCR s = (if s \<noteq> [] \<and> last s = CHR 0x0D then butlast s else s)"

fun scanLines :: "string \<Rightarrow> string \<Rightarrow> string list" where
  "scanLines cur [] = (if cur = [] \<or> length cur \<ge> 65536 then [] else [dropCR cur])"
| "scanLines cur (c # cs) =
     (if c = newline
      then (if length cur \<ge> 65536 then [] else dropCR cur # scanLines [] cs)
      else scanLines (cur @ [c]) cs)"

text \<open>
  The pattern \<^verbatim>\<open>^\s*([^\s]+)\s+v([0-9A-Za-z\.\-\+]+)\<close> and \<^verbatim>\<open>FindStringSubmatch\<close>.
  In Go's \<^verbatim>\<open>regexp\<close>, \<^verbatim>\<open>\s\<close> is the class of tab, line feed, form feed, carriage return
  and space. The match is anchored at the start of the line and every repetition is
  greedy; each repetition is followed by something it cannot itself consume (a
  non-space after \<^verbatim>\<open>\s*\<close>, a space after \<^verbatim>\<open>[^\s]+\<close>, the letter v after \<^verbatim>\<open>\s+\<close>),
  so each takes the longest run and no backtracking changes the result. The result
  is the list of the whole match and the two groups, or the empty list (\<^verbatim>\<open>nil\<close>).
\<close>

definition isRegexpSpace :: "char \<Rightarrow> bool" where
  "isRegexpSpace c = (c = CHR 0x09 \<or> c = CHR 0x0A \<or> c = CHR 0x0C \<or> c = CHR 0x0D \<or> c = CHR '' '')"

definition isVersionChar :: "char \<Rightarrow> bool" where
  "isVersionChar c =
     (let n = (of_char c :: nat)
      in (48 \<le> n \<and> n \<le> 57) \<or> (65 \<le> n \<and> n \<le> 90) \<or> (97 \<le> n \<and> n \<le> 122)
         \<or> c = CHR ''.'' \<or> c = CHR ''-'' \<or> c = CHR ''+'')"

definition depPattern :: "string \<Rightarrow> string list" where
  "depPattern line =
     (let lead = takeWhile isRegexpSpace line;
          r1 = dropWhile isRegexpSpace line;
          modp = takeWhile (\<lambda>c. \<not> isRegexpSpace c) r1;
          r2 = dropWhile (\<lambda>c. \<not> isRegexpSpace c) r1;
          gap = takeWhile isRegexpSpace r2;
          r3 = dropWhile isRegexpSpace r2
      in if modp = [] \<or> gap = [] then []
         else (case r3 of
                 [] \<Rightarrow> []
               | c # r4 \<Rightarrow>
                   if c \<noteq> CHR ''v'' then []
                   else (let ver = takeWhile isVersionChar r4
                         in if ver = [] then []
                            else [lead @ modp @ gap @ ''v'' @ ver, modp, ver])))"

text \<open>
  The loop of \<^verbatim>\<open>parseGoMod\<close> over the scanned lines, with its two variables
  \<^verbatim>\<open>inBlock\<close> and \<^verbatim>\<open>coords\<close>.
\<close>

fun parseLines :: "bool \<Rightarrow> string list \<Rightarrow> string list \<Rightarrow> string list" where
  "parseLines inBlock coords [] = coords"
| "parseLines inBlock coords (line # rest) =
     (if HasPrefix line ''require ('' then parseLines True coords rest
      else if inBlock \<and> HasPrefix line '')'' then parseLines False coords rest
      else if inBlock \<or> HasPrefix line ''require''
      then (let m = depPattern line
            in if length m = 3
               then parseLines inBlock (coords @ [''pkg:golang/'' @ m ! 1 @ ''@v'' @ m ! 2]) rest
               else parseLines inBlock coords rest)
      else parseLines inBlock coords rest)"

text \<open>
  \<^verbatim>\<open>parseGoMod\<close> takes what opening the file gave: the error of \<^verbatim>\<open>os.Open\<close>, or the
  bytes of the file.
\<close>

definition parseGoMod :: "error + string \<Rightarrow> error + string list" where
  "parseGoMod opened =
     (case opened of
        Inl err \<Rightarrow> Inl err
      | Inr content \<Rightarrow> Inr (parseLines False [] (scanLines [] content)))"

subsection \<open>The drivers\<close>

text \<open>
  What a run does is a list of events in program order, and the exit status.
  Rendering one dependency's block formats the score with \<^verbatim>\<open>%.1f\<close>; the call is
  recorded as an event rather than as the bytes it writes.
\<close>

datatype event =
    Stdout string
  | Stderr string
  | CallStat string string
  | CallParseGoMod string
  | CallParsePomXML string
  | CallCheckVulnerabilities "string list"
  | CallPrintVulnTable string "Vulnerability list"
  | CallPrintVulnBox string "Vulnerability list"
  | PrintfVulnerability Vulnerability

definition Println :: "string \<Rightarrow> event" where
  "Println s = Stdout (s @ [newline])"

definition errorText :: "error \<Rightarrow> string" where
  "errorText e = (case e of Error msg \<Rightarrow> msg)"

text \<open>
  The table program's report loop and summary (\<^verbatim>\<open>src/main.go\<close> 312-325), with the
  counters \<^verbatim>\<open>totalDeps\<close> and \<^verbatim>\<open>totalVulns\<close>. The check mark is the three bytes of
  U+2705.
\<close>

fun tableLoop :: "int \<Rightarrow> int \<Rightarrow> OSSIndexResponse list \<Rightarrow> event list \<times> int \<times> int" where
  "tableLoop totalDeps totalVulns [] = ([], totalDeps, totalVulns)"
| "tableLoop totalDeps totalVulns (r # rs) =
     (if length (Vulnerabilities r) > 0
      then (case tableLoop (totalDeps + 1) (totalVulns + int (length (Vulnerabilities r))) rs of
              (es, d, v) \<Rightarrow> (CallPrintVulnTable (Coordinates r) (Vulnerabilities r) # es, d, v))
      else tableLoop totalDeps totalVulns rs)"

definition tableReport :: "OSSIndexResponse list \<Rightarrow> event list" where
  "tableReport results =
     (case tableLoop 0 0 results of
        (es, totalDeps, totalVulns) \<Rightarrow>
          es @ [if totalVulns = 0
                then Println ([CHR 0xE2, CHR 0x9C, CHR 0x85] @ '' No known vulnerabilities found!'')
                else Stdout ([newline] @ ''Summary: '' @ showInt totalDeps
                       @ '' dependencies affected, '' @ showInt totalVulns
                       @ '' vulnerabilities found.'' @ [newline])])"

text \<open>
  \<^verbatim>\<open>main\<close> of the table program (\<^verbatim>\<open>src/main.go\<close> 278-326); \<^verbatim>\<open>afterParse\<close> is its part
  from line 296 on. The arrow and the ellipsis of the progress line are the bytes of
  U+2192 and U+2026.
\<close>

definition afterParse :: "world \<Rightarrow> string \<Rightarrow> error + string list \<Rightarrow> event list \<times> int" where
  "afterParse w lang parsed =
     (case parsed of
        Inl err \<Rightarrow> ([Stderr (''Error parsing: '' @ errorText err @ [newline])], 1)
      | Inr coords \<Rightarrow>
          if length coords = 0 then ([Println ''No dependencies found.''], 0)
          else (let progress = Stdout (ColorBold @ ''Parsing '' @ lang @ '' ''
                       @ [CHR 0xE2, CHR 0x86, CHR 0x92] @ '' found '' @ showInt (int (length coords))
                       @ '' dependencies. Querying vulnerabilities''
                       @ [CHR 0xE2, CHR 0x80, CHR 0xA6] @ ColorReset @ [newline, newline])
                in case ossIndex w coords of
                     Inl err \<Rightarrow>
                       ([progress, CallCheckVulnerabilities coords,
                         Stderr (''Error fetching vulnerabilities: '' @ errorText err @ [newline])], 1)
                   | Inr results \<Rightarrow>
                       ([progress, CallCheckVulnerabilities coords] @ tableReport results, 0)))"

definition main :: "world \<Rightarrow> string list \<Rightarrow> event list \<times> int" where
  "main w args =
     (if length args \<noteq> 3
      then ([Println ''Usage: vulnscanner [go|java] /path/to/project''], 1)
      else (let lang = args ! 1; path = args ! 2
            in if lang = ''go''
               then (case afterParse w lang (parseGoMod (goModFile w path)) of
                       (es, code) \<Rightarrow> (CallParseGoMod path # es, code))
               else if lang = ''java''
               then (case afterParse w lang (pomXML w path) of
                       (es, code) \<Rightarrow> (CallParsePomXML path # es, code))
               else ([Println ''Supported languages: go, java''], 1)))"

text \<open>
  \<^verbatim>\<open>printReport\<close> of the plain program (\<^verbatim>\<open>src/unnamed/part_001\<close> 115-133), with its flag
  \<^verbatim>\<open>vulnFound\<close>; the five \<^verbatim>\<open>Printf\<close> calls for one vulnerability are one event.
\<close>

fun plainLoop :: "bool \<Rightarrow> OSSIndexResponse list \<Rightarrow> event list \<times> bool" where
  "plainLoop vulnFound [] = ([], vulnFound)"
| "plainLoop vulnFound (r # rs) =
     (if length (Vulnerabilities r) > 0
      then (case plainLoop True rs of
              (es, found) \<Rightarrow>
                (Stdout ([newline] @ ''[!] Vulnerabilities found for '' @ Coordinates r @ '':''
                          @ [newline])
                 # map PrintfVulnerability (Vulnerabilities r) @ es, found))
      else plainLoop vulnFound rs)"

definition printReport_plain :: "OSSIndexResponse list \<Rightarrow> event list" where
  "printReport_plain results =
     (case plainLoop False results of
        (es, vulnFound) \<Rightarrow>
          es @ (if \<not> vulnFound then [Println ''No known vulnerabilities found!''] else []))"

text \<open>
  \<^verbatim>\<open>printReport\<close> of the box program of width 100 (\<^verbatim>\<open>src/unnamed/part_000\<close> 292-309),
  with its counters \<^verbatim>\<open>vulnCount\<close> and \<^verbatim>\<open>depCount\<close>.
\<close>

fun boxLoop :: "int \<Rightarrow> int \<Rightarrow> OSSIndexResponse list \<Rightarrow> event list \<times> int \<times> int" where
  "boxLoop vulnCount depCount [] = ([], vulnCount, depCount)"
| "boxLoop vulnCount depCount (r # rs) =
     (if length (Vulnerabilities r) > 0
      then (case boxLoop (vulnCount + int (length (Vulnerabilities r))) (depCount + 1) rs of
              (es, v, d) \<Rightarrow> (CallPrintVulnBox (Coordinates r) (Vulnerabilities r) # es, v, d))
      else boxLoop vulnCount depCount rs)"

definition printReport_box :: "OSSIndexResponse list \<Rightarrow> event list" where
  "printReport_box results =
     (case boxLoop 0 0 results of
        (es, vulnCount, depCount) \<Rightarrow>
          es @ [if vulnCount = 0
                then Println (Cyan @ ''No known vulnerabilities found!'' @ Reset)
                else Stdout (Bold @ ''Summary:'' @ Reset @ '' '' @ showInt depCount
                       @ '' dependencies affected, '' @ showInt vulnCount
                       @ '' vulnerabilities found.'' @ [newline, newline])])"

text \<open>
  \<^verbatim>\<open>main\<close> of the plain program (\<^verbatim>\<open>src/unnamed/part_001\<close> 135-186); the box programs'
  \<^verbatim>\<open>main\<close> is the same text. \<^verbatim>\<open>afterParse_plain\<close> is its part from line 170 on.
\<close>

definition usage_plain :: "event list" where
  "usage_plain =
     [Println ''Usage: vulnscanner <language> <path_to_project>'',
      Println ''Example for Go: vulnscanner go /path/to/project'',
      Println ''Example for Java: vulnscanner java /path/to/project'']"

definition afterParse_plain :: "world \<Rightarrow> error + string list \<Rightarrow> event list \<times> int" where
  "afterParse_plain w parsed =
     (case parsed of
        Inl err \<Rightarrow> ([Stdout (''Error parsing dependencies: '' @ errorText err @ [newline])], 1)
      | Inr pkgs \<Rightarrow>
          if length pkgs = 0 then ([Println ''No dependencies found.''], 0)
          else (let progress = Stdout (''Found '' @ showInt (int (length pkgs))
                       @ '' dependencies. Checking vulnerabilities...'' @ [newline])
                in case ossIndex w pkgs of
                     Inl err \<Rightarrow>
                       ([progress, CallCheckVulnerabilities pkgs,
                         Stdout (''Error querying vulnerabilities: '' @ errorText err @ [newline])], 1)
                   | Inr results \<Rightarrow>
                       ([progress, CallCheckVulnerabilities pkgs] @ printReport_plain results, 0)))"

definition main_plain :: "world \<Rightarrow> string list \<Rightarrow> event list \<times> int" where
  "main_plain w args =
     (if length args < 3 then (usage_plain, 1)
      else (let lang = ToLower (args ! 1); path = args ! 2
            in if lang = ''go''
               then (if notExist w path ''go.mod''
                     then ([CallStat path ''go.mod'',
                            Println ''go.mod not found in the specified path.''], 1)
                     else (case afterParse_plain w (parseGoMod (goModFile w path)) of
                             (es, code) \<Rightarrow>
                               ([CallStat path ''go.mod'', Println ''Parsing go.mod...'',
                                 CallParseGoMod path] @ es, code)))
               else if lang = ''java''
               then (if notExist w path ''pom.xml''
                     then ([CallStat path ''pom.xml'',
                            Println ''pom.xml not found in the specified path.''], 1)
                     else (case afterParse_plain w (pomXML w path) of
                             (es, code) \<Rightarrow>
                               ([CallStat path ''pom.xml'', Println ''Parsing pom.xml...'',
                                 CallParsePomXML path] @ es, code)))
               else ([Println ''Supported languages: go, java''], 1)))"

text \<open>
  The specification's words for the two counts of a report: the number of reports with
  at least one vulnerability, and the number of vulnerabilities over all reports.
\<close>

definition affected :: "OSSIndexResponse list \<Rightarrow> int" where
  "affected results = int (length (filter (\<lambda>r. Vulnerabilities r \<noteq> []) results))"

definition found :: "OSSIndexResponse list \<Rightarrow> int" where
  "found results = (\<Sum>r\<leftarrow>results. int (length (Vulnerabilities r)))"

text \<open>The events of a run that parse a manifest or reach the network.\<close>

fun isParseOrNetwork :: "event \<Rightarrow> bool" where
  "isParseOrNetwork (CallParseGoMod p) = True"
| "isParseOrNetwork (CallParsePomXML p) = True"
| "isParseOrNetwork (CallCheckVulnerabilities cs) = True"
| "isParseOrNetwork e = False"

fun isQuery :: "event \<Rightarrow> bool" where
  "isQuery (CallCheckVulnerabilities cs) = True"
| "isQuery e = False"

subsection \<open>Runes, white space and fields\<close>

text \<open>
  \<^verbatim>\<open>utf8.DecodeRuneInString\<close>: the first rune of a string and its width in bytes, by the
  table \<^verbatim>\<open>first\<close> of lead bytes (size and accept range of the second byte, or invalid)
  and the range of continuation bytes. A byte that starts no well-formed encoding is the
  rune \<^verbatim>\<open>RuneError\<close> (U+FFFD) of width 1. The bytes are taken as numbers.
\<close>

definition RuneError :: nat where "RuneError = 0xFFFD"

definition leadInfo :: "nat \<Rightarrow> (nat \<times> nat \<times> nat) option" where
  "leadInfo b0 =
     (if 0xC2 \<le> b0 \<and> b0 \<le> 0xDF then Some (2, 0x80, 0xBF)
      else if b0 = 0xE0 then Some (3, 0xA0, 0xBF)
      else if (0xE1 \<le> b0 \<and> b0 \<le> 0xEC) \<or> b0 = 0xEE \<or> b0 = 0xEF then Some (3, 0x80, 0xBF)
      else if b0 = 0xED then Some (3, 0x80, 0x9F)
      else if b0 = 0xF0 then Some (4, 0x90, 0xBF)
      else if 0xF1 \<le> b0 \<and> b0 \<le> 0xF3 then Some (4, 0x80, 0xBF)
      else if b0 = 0xF4 then Some (4, 0x80, 0x8F)
      else None)"

definition decodeBytes :: "nat list \<Rightarrow> nat \<times> nat" where
  "decodeBytes bs =
     (case bs of
        [] \<Rightarrow> (RuneError, 0)
      | b0 # rest \<Rightarrow>
          if b0 < 0x80 then (b0, 1)
          else (case leadInfo b0 of
                  None \<Rightarrow> (RuneError, 1)
                | Some (sz, lo, hi) \<Rightarrow>
                    if length bs < sz then (RuneError, 1)
                    else (let b1 = bs ! 1
                          in if b1 < lo \<or> hi < b1 then (RuneError, 1)
                             else if sz \<le> 2 then (b0 mod 32 * 64 + b1 mod 64, 2)
                             else (let b2 = bs ! 2
                                   in if b2 < 0x80 \<or> 0xBF < b2 then (RuneError, 1)
                                      else if sz \<le> 3
                                      then (b0 mod 16 * 4096 + b1 mod 64 * 64 + b2 mod 64, 3)
                                      else (let b3 = bs ! 3
                                            in if b3 < 0x80 \<or> 0xBF < b3 then (RuneError, 1)
                                               else (b0 mod 8 * 262144 + b1 mod 64 * 4096
                                                     + b2 mod 64 * 64 + b3 mod 64, 4))))))"

definition DecodeRuneInString :: "string \<Rightarrow> nat \<times> nat" where
  "DecodeRuneInString s = decodeBytes (map of_char s)"

text \<open>
  The runes of a string as \<^verbatim>\<open>for i, r := range s\<close> visits them, each with the bytes it
  was decoded from; \<^verbatim>\<open>utf8.RuneCountInString\<close> is their number. The recursion ends
  because the width of the rune of a non-empty string is at least one.
\<close>

lemma leadInfo_Some:
  "leadInfo b = Some (sz, lo, hi) \<Longrightarrow> 2 \<le> sz \<and> sz \<le> 4 \<and> 0x80 \<le> lo \<and> hi \<le> 0xBF \<and> 0xC2 \<le> b"
  by (auto simp: leadInfo_def split: if_splits)

lemma decodeBytes_width:
  assumes "bs \<noteq> []"
  shows "1 \<le> snd (decodeBytes bs) \<and> snd (decodeBytes bs) \<le> length bs"
proof -
  from assms obtain b0 rest where bs: "bs = b0 # rest" by (cases bs) auto
  show ?thesis
  proof (cases "leadInfo b0")
    case None
    then show ?thesis by (simp add: decodeBytes_def bs)
  next
    case (Some t)
    obtain sz lo hi where t: "t = (sz, lo, hi)" by (cases t) auto
    from leadInfo_Some [of b0 sz lo hi] Some t
    have "sz = 2 \<or> sz = 3 \<or> sz = 4" by auto
    then show ?thesis
      by (auto simp: decodeBytes_def bs Some t Let_def Suc_le_eq)
  qed
qed

lemma DecodeRuneInString_width:
  "s \<noteq> [] \<Longrightarrow> 0 < snd (DecodeRuneInString s) \<and> snd (DecodeRuneInString s) \<le> length s"
  using decodeBytes_width [of "map of_char s"] by (simp add: DecodeRuneInString_def)

function runes :: "string \<Rightarrow> (nat \<times> string) list" where
  "runes s =
     (if s = [] then []
      else (fst (DecodeRuneInString s), take (snd (DecodeRuneInString s)) s)
           # runes (drop (snd (DecodeRuneInString s)) s))"
  by pat_completeness auto
termination
  by (relation "measure length") (auto dest: DecodeRuneInString_width)

declare runes.simps [simp del]

definition RuneCountInString :: "string \<Rightarrow> nat" where
  "RuneCountInString s = length (runes s)"

text \<open>\<^verbatim>\<open>unicode.IsSpace\<close>: the Latin-1 cases, then the table \<^verbatim>\<open>White_Space\<close>.\<close>

definition IsSpace :: "nat \<Rightarrow> bool" where
  "IsSpace r =
     (if r \<le> 0xFF
      then r = 0x09 \<or> r = 0x0A \<or> r = 0x0B \<or> r = 0x0C \<or> r = 0x0D \<or> r = 0x20
           \<or> r = 0x85 \<or> r = 0xA0
      else r = 0x1680 \<or> (0x2000 \<le> r \<and> r \<le> 0x200A) \<or> r = 0x2028 \<or> r = 0x2029
           \<or> r = 0x202F \<or> r = 0x205F \<or> r = 0x3000)"

text \<open>
  \<^verbatim>\<open>strings.Fields\<close>, that is \<^verbatim>\<open>FieldsFunc(s, unicode.IsSpace)\<close> (its loop over the runes
  of the string; the shortcut for ASCII strings computes the same). The variable
  \<^verbatim>\<open>start\<close> of the loop is non-negative exactly while a field is open; the model
  carries the bytes of the open field instead, which are \<^verbatim>\<open>s[start:end]\<close>.
\<close>

fun fieldsLoop :: "string \<Rightarrow> (nat \<times> string) list \<Rightarrow> string list" where
  "fieldsLoop cur [] = (if cur = [] then [] else [cur])"
| "fieldsLoop cur ((r, bs) # us) =
     (if IsSpace r
      then (if cur = [] then fieldsLoop [] us else cur # fieldsLoop [] us)
      else fieldsLoop (cur @ bs) us)"

definition Fields :: "string \<Rightarrow> string list" where
  "Fields s = fieldsLoop [] (runes s)"

text \<open>
  \<^verbatim>\<open>strings.Index(s, substr)\<close>: the index of the first instance of \<^verbatim>\<open>substr\<close> in
  \<^verbatim>\<open>s\<close>, or -1.
\<close>

fun indexFrom :: "nat \<Rightarrow> string \<Rightarrow> string \<Rightarrow> int" where
  "indexFrom i [] p = (if p = [] then int i else - 1)"
| "indexFrom i (c # cs) p = (if prefix p (c # cs) then int i else indexFrom (Suc i) cs p)"

definition Index :: "string \<Rightarrow> string \<Rightarrow> int" where
  "Index s p = indexFrom 0 s p"

subsection \<open>Word wrapping\<close>

text \<open>
  \<^verbatim>\<open>wrapText\<close> (\<^verbatim>\<open>src/main.go\<close> 74-91, \<^verbatim>\<open>src/unnamed/part_000\<close> 76-93, the same text):
  its loop over \<^verbatim>\<open>words[1:]\<close> with the variables \<^verbatim>\<open>lines\<close> and \<^verbatim>\<open>line\<close>.
\<close>

fun wrapLoop :: "int \<Rightarrow> string list \<Rightarrow> string \<Rightarrow> string list \<Rightarrow> string list" where
  "wrapLoop width lines line [] = lines @ [line]"
| "wrapLoop width lines line (w # ws) =
     (if int (RuneCountInString line) + 1 + int (RuneCountInString w) > width
      then wrapLoop width (lines @ [line]) w ws
      else wrapLoop width lines (line @ '' '' @ w) ws)"

definition wrapText :: "string \<Rightarrow> int \<Rightarrow> string list" where
  "wrapText s width =
     (let words = Fields s
      in if length words = 0 then ['''']
         else wrapLoop width [] (words ! 0) (drop 1 words))"

subsection \<open>The upgrade hint\<close>

text \<open>
  \<^verbatim>\<open>extractUpgradeSuggestion\<close>. The description is lower-cased by \<^verbatim>\<open>strings.ToLower\<close>
  first, so the function has the parameter \<open>mapLower\<close> of \<open>ToLower_utf8\<close>, which it uses
  on a description with a byte from 128 on. The loop over the phrases is the same in
  both variants, which differ in the list of phrases and in the words put before the
  token: the table
  program (\<^verbatim>\<open>src/main.go\<close> 111-125) has four phrases and \<^verbatim>\<open>"Upgrade to "\<close>, the box
  programs (\<^verbatim>\<open>src/unnamed/part_000\<close> 132-146) have five phrases and
  \<^verbatim>\<open>"Upgrade to version "\<close>.
\<close>

fun suggestLoop :: "string \<Rightarrow> string \<Rightarrow> string list \<Rightarrow> string" where
  "suggestLoop pre lower [] = ''''"
| "suggestLoop pre lower (p # ps) =
     (let idx = Index lower p
      in if idx \<noteq> - 1
         then (let after = drop (nat (idx + int (length p))) lower;
                   parts = Fields after
               in if length parts > 0 then pre @ parts ! 0
                  else suggestLoop pre lower ps)
         else suggestLoop pre lower ps)"

definition extractUpgradeSuggestion :: "(string \<Rightarrow> string) \<Rightarrow> string \<Rightarrow> string" where
  "extractUpgradeSuggestion mapLower desc =
     suggestLoop ''Upgrade to '' (ToLower_utf8 mapLower desc)
       [''upgrade to version '', ''fixed in '', ''update to version '', ''use version '']"

definition patterns_box :: "string list" where
  "patterns_box =
     [''upgrade to version '', ''upgrade to '', ''fixed in '', ''update to version '',
      ''use version '']"

definition extractUpgradeSuggestion_box :: "(string \<Rightarrow> string) \<Rightarrow> string \<Rightarrow> string" where
  "extractUpgradeSuggestion_box mapLower desc =
     suggestLoop ''Upgrade to version '' (ToLower_utf8 mapLower desc) patterns_box"

text \<open>
  The suggested-fix text that the renderers print: the hint, or the fallback when the hint
  is empty. The table program's fallback is \<^verbatim>\<open>hyperlink("Check reference URL", v.Reference)\<close>
  (\<^verbatim>\<open>src/main.go\<close> 165-169), the box programs' is a fixed sentence
  (\<^verbatim>\<open>src/unnamed/part_000\<close> 198-203).
\<close>

definition hyperlink :: "string \<Rightarrow> string \<Rightarrow> string" where
  "hyperlink txt url =
     [CHR 0x1B] @ '']8;;'' @ url @ [CHR 0x1B, CHR 0x5C] @ txt @ [CHR 0x1B] @ '']8;;''
       @ [CHR 0x1B, CHR 0x5C]"

definition suggestedFix :: "(string \<Rightarrow> string) \<Rightarrow> Vulnerability \<Rightarrow> string" where
  "suggestedFix mapLower v =
     (let fix = extractUpgradeSuggestion mapLower (Description v)
      in if fix = '''' then hyperlink ''Check reference URL'' (Reference v) else fix)"

definition suggestedFix_box :: "(string \<Rightarrow> string) \<Rightarrow> Vulnerability \<Rightarrow> string" where
  "suggestedFix_box mapLower v =
     (let suggestion = extractUpgradeSuggestion_box mapLower (Description v)
      in if suggestion \<noteq> '''' then suggestion
         else ''Check latest version at reference URL.'')"

subsection \<open>Words of the specification\<close>

text \<open>
  \<^verbatim>\<open>strings.Join(ws, " ")\<close>: words joined by single spaces. A word, in the sense of
  \<^verbatim>\<open>strings.Fields\<close>: a non-empty string none of whose runes is white space. The first
  occurrence of a phrase \<open>p\<close> in a text \<open>s\<close>, with the text \<open>a\<close> before it and the
  text \<open>c\<close> after it.
\<close>

fun joinSpace :: "string list \<Rightarrow> string" where
  "joinSpace [] = []"
| "joinSpace [w] = w"
| "joinSpace (w # v # ws) = w @ '' '' @ joinSpace (v # ws)"

definition isWord :: "string \<Rightarrow> bool" where
  "isWord w = (w \<noteq> [] \<and> \<not> list_ex (\<lambda>u. IsSpace (fst u)) (runes w))"

definition firstOccurrence :: "string \<Rightarrow> string \<Rightarrow> string \<Rightarrow> string \<Rightarrow> bool" where
  "firstOccurrence s p a c =
     (s = a @ p @ c \<and> (\<forall>a' c'. s = a' @ p @ c' \<longrightarrow> length a \<le> length a'))"

text \<open>
  The language of the dependency pattern \<^verbatim>\<open>^\s*([^\s]+)\s+v([0-9A-Za-z\.\-\+]+)\<close>, read off
  the expression: a line matches with module path \<open>m\<close> and version \<open>v\<close> when it is
  optional white space, the non-empty space-free \<open>m\<close>, at least one white space, the
  letter v, and the non-empty \<open>v\<close> of version bytes, followed by anything.
\<close>

definition patternMatch :: "string \<Rightarrow> string \<Rightarrow> string \<Rightarrow> bool" where
  "patternMatch line m v =
     (\<exists>lead gap rest. line = lead @ m @ gap @ ''v'' @ v @ rest
        \<and> list_all isRegexpSpace lead
        \<and> m \<noteq> [] \<and> list_all (\<lambda>c. \<not> isRegexpSpace c) m
        \<and> gap \<noteq> [] \<and> list_all isRegexpSpace gap
        \<and> v \<noteq> [] \<and> list_all isVersionChar v)"

subsection \<open>Notions used in the proofs\<close>

text \<open>
  The bytes of a list of runes; a list of runes that its own bytes decode to; and the
  sum, over a list of words, of the rune count of each word plus one.
\<close>

definition bytesOf :: "(nat \<times> string) list \<Rightarrow> string" where
  "bytesOf us = concat (map snd us)"

definition selfDecoding :: "(nat \<times> string) list \<Rightarrow> bool" where
  "selfDecoding us = (runes (bytesOf us) = us)"

fun runeTotal :: "string list \<Rightarrow> nat" where
  "runeTotal [] = 0"
| "runeTotal (w # ws) = RuneCountInString w + 1 + runeTotal ws"

text \<open>
  What one turn of the loop finds for a phrase: the first field after the first instance
  of the phrase, if the phrase occurs and a field follows.
\<close>

definition tokenAfter :: "string \<Rightarrow> string \<Rightarrow> string option" where
  "tokenAfter lower p =
     (if Index lower p = - 1 then None
      else (case Fields (drop (nat (Index lower p + int (length p))) lower) of
              [] \<Rightarrow> None
            | t # ts \<Rightarrow> Some t))"

subsection \<open>Example inputs\<close>

text \<open>
  Concrete reports and a concrete world, for evaluating the programs: a report with two
  vulnerabilities, a report with none, a vulnerability whose description breaks off after a
  phrase, and a world whose \<^verbatim>\<open>go.mod\<close> declares one
  dependency in a requirement block and whose lookup service answers with the clean
  report. Also a description with a letter outside ASCII, the words FIXED IN 2.0 with
  U+0130 (bytes C4 B0) for each I, and a \<open>mapLower\<close> that has the value of
  \<^verbatim>\<open>Map(unicode.ToLower, s)\<close> at it: U+0130 lower-cases to \<^verbatim>\<open>i\<close>.
\<close>

definition report_two :: OSSIndexResponse where
  "report_two =
     \<lparr>Coordinates = ''pkg:golang/github.com/foo/bar@v1.2.3'',
      Vulnerabilities =
        [\<lparr>ID = ''a1'', Title = ''Overflow'', Description = ''fixed in 1.2.4'', CVSSScore = 7.5,
          CVE = ''CVE-2024-0001'', Reference = ''https://example.org/a1''\<rparr>,
         \<lparr>ID = ''a2'', Title = ''Injection'', Description = ''no fix'', CVSSScore = 9.8,
          CVE = ''CVE-2024-0002'', Reference = ''https://example.org/a2''\<rparr>]\<rparr>"

definition report_clean :: OSSIndexResponse where
  "report_clean = \<lparr>Coordinates = ''pkg:golang/github.com/foo/baz@v0.1.0'', Vulnerabilities = []\<rparr>"

definition vuln_truncated :: Vulnerability where
  "vuln_truncated =
     \<lparr>ID = ''a3'', Title = ''Deserialization'',
      Description = ''Use version 2.0 or update to version '', CVSSScore = 8.1,
      CVE = ''CVE-2024-0003'', Reference = ''https://example.org/a3''\<rparr>"

definition desc_dotted :: string where
  "desc_dotted = ''F'' @ [CHR 0xC4, CHR 0xB0] @ ''XED '' @ [CHR 0xC4, CHR 0xB0] @ ''N 2.0''"

definition lower_dotted :: "string \<Rightarrow> string" where
  "lower_dotted s = (if s = desc_dotted then ''fixed in 2.0'' else s)"

definition world_block :: world where
  "world_block =
     \<lparr>goModFile = (\<lambda>path. Inr (''module example'' @ [newline] @ ''require ('' @ [newline]
                     @ ''  github.com/foo/bar v1.2.3'' @ [newline] @ '')'' @ [newline])),
      pomXML = (\<lambda>path. Inr []),
      ossIndex = (\<lambda>coords. Inr [report_clean]),
      notExist = (\<lambda>path name. False)\<rparr>"

section \<open>Properties of the severity classifier\<close>

lemma emphasis_distinct:
  "distinct [spec_emphasis Critical, spec_emphasis High, spec_emphasis Medium, spec_emphasis Low]"
  by simp

lemma severityColor_refines: "severityColor score = spec_emphasis (spec_tier score)"
  by (simp add: severityColor_def spec_tier_def ColorRed_def ColorBold_def ColorYel_def
      ColorReset_def)

lemma severityColor_box_refines: "severityColor_box score = spec_emphasis (spec_tier score)"
  by (simp add: severityColor_box_def spec_tier_def Red_def Bold_def Yellow_def Reset_def)

text \<open>
  C3. For every score, both severity classifiers return the emphasis of the tier that
  the specification assigns: critical from 9.0, high on [7.0, 9.0), medium on
  [4.0, 7.0), low below 4.0, each lower bound inclusive. The four emphases are pairwise
  different, so the returned string determines the tier. The boundary scores 9.0, 8.99,
  7.0, 6.99, 4.0 and 3.99 fall in critical, high, high, medium, medium and low.
\<close>

theorem severity_classification:
  "(9 \<le> score \<longrightarrow> severityColor score = spec_emphasis Critical
                  \<and> severityColor_box score = spec_emphasis Critical)
   \<and> (7 \<le> score \<and> score < 9 \<longrightarrow> severityColor score = spec_emphasis High
                  \<and> severityColor_box score = spec_emphasis High)
   \<and> (4 \<le> score \<and> score < 7 \<longrightarrow> severityColor score = spec_emphasis Medium
                  \<and> severityColor_box score = spec_emphasis Medium)
   \<and> (score < 4 \<longrightarrow> severityColor score = spec_emphasis Low
                  \<and> severityColor_box score = spec_emphasis Low)
   \<and> severityColor 9.0 = spec_emphasis Critical \<and> severityColor 8.99 = spec_emphasis High
   \<and> severityColor 7.0 = spec_emphasis High \<and> severityColor 6.99 = spec_emphasis Medium
   \<and> severityColor 4.0 = spec_emphasis Medium \<and> severityColor 3.99 = spec_emphasis Low
   \<and> distinct [spec_emphasis Critical, spec_emphasis High, spec_emphasis Medium,
        spec_emphasis Low]"
  unfolding severityColor_refines severityColor_box_refines
  by (simp add: spec_tier_def)

theorem severity_classification_witness:
  "severityColor 9.5 = ColorRed @ ColorBold \<and> severityColor_box 7.2 = Red
   \<and> severityColor 5 = ColorYel \<and> severityColor_box 0 = Reset"
  using severity_classification [of "9.5"] severity_classification [of "7.2"]
    severity_classification [of 5] severity_classification [of 0]
  by (simp add: ColorRed_def ColorBold_def ColorYel_def Red_def Reset_def)

section \<open>Properties of truncation\<close>

lemma truncate_fits: "int (length s) \<le> mx \<Longrightarrow> truncate s mx = Inr s"
  by (simp add: truncate_def)

lemma truncate_cuts:
  "int (length s) > mx \<Longrightarrow> 3 \<le> mx \<Longrightarrow>
   truncate s mx = Inr (take (nat (mx - 3)) s @ ''...'')
   \<and> int (length (take (nat (mx - 3)) s @ ''...'')) = mx"
  by (simp add: truncate_def min_def)

lemma truncate_box_fits: "int (length s) \<le> l \<Longrightarrow> truncate_box s l = Inr s"
  by (simp add: truncate_box_def)

lemma truncate_box_cuts:
  "int (length s) > l \<Longrightarrow> 0 \<le> l \<Longrightarrow>
   truncate_box s l = Inr (take (nat l) s @ ''...'')
   \<and> int (length (take (nat l) s @ ''...'')) = l + 3"
  by (simp add: truncate_box_def min_def)

text \<open>
  C8, as the claim states it, fails on the box programs: with the budget 200 of
  \<^verbatim>\<open>printVulnBox\<close> (\<^verbatim>\<open>src/unnamed/part_000\<close> 194) a description of 201 bytes is rendered
  as 203 bytes, the first 200 and the ellipsis.
\<close>

theorem truncate_box_exceeds_budget:
  "truncate_box (replicate 201 (CHR ''a'')) 200 = Inr (replicate 200 (CHR ''a'') @ ''...'')
   \<and> int (length (replicate 200 (CHR ''a'') @ ''...'')) = 203
   \<and> (203::int) > 200"
  by (simp add: truncate_box_def)

text \<open>
  C8, amended. A description within the budget is rendered unchanged by every variant.
  A longer one is rendered ellipsis-terminated: by the table program (budget at least 3;
  the renderer's is 40) as its first \<open>budget - 3\<close> bytes and the ellipsis, \<open>budget\<close>
  bytes in all; by the box programs (budget at least 0; the renderers' are 200 and 80) as
  its first \<open>budget\<close> bytes and the ellipsis, \<open>budget + 3\<close> bytes in all.
\<close>

theorem truncate_budget:
  "(3 \<le> mx \<longrightarrow> (\<exists>r. truncate s mx = Inr r \<and> int (length r) \<le> mx
        \<and> (int (length s) \<le> mx \<longrightarrow> r = s)
        \<and> (int (length s) > mx \<longrightarrow> r = take (nat (mx - 3)) s @ ''...''
              \<and> ellipsis_terminated r \<and> int (length r) = mx)))
   \<and> (0 \<le> l \<longrightarrow> (\<exists>r. truncate_box s l = Inr r \<and> int (length r) \<le> l + 3
        \<and> (int (length s) \<le> l \<longrightarrow> r = s)
        \<and> (int (length s) > l \<longrightarrow> r = take (nat l) s @ ''...''
              \<and> ellipsis_terminated r \<and> int (length r) = l + 3)))"
proof (intro conjI impI)
  assume mx: "3 \<le> mx"
  show "\<exists>r. truncate s mx = Inr r \<and> int (length r) \<le> mx
        \<and> (int (length s) \<le> mx \<longrightarrow> r = s)
        \<and> (int (length s) > mx \<longrightarrow> r = take (nat (mx - 3)) s @ ''...''
              \<and> ellipsis_terminated r \<and> int (length r) = mx)"
  proof (cases "int (length s) \<le> mx")
    case True
    then show ?thesis by (simp add: truncate_fits)
  next
    case False
    with mx truncate_cuts [of mx s] show ?thesis
      by (simp add: ellipsis_terminated_def suffix_def)
  qed
next
  assume l: "0 \<le> l"
  show "\<exists>r. truncate_box s l = Inr r \<and> int (length r) \<le> l + 3
        \<and> (int (length s) \<le> l \<longrightarrow> r = s)
        \<and> (int (length s) > l \<longrightarrow> r = take (nat l) s @ ''...''
              \<and> ellipsis_terminated r \<and> int (length r) = l + 3)"
  proof (cases "int (length s) \<le> l")
    case True
    then show ?thesis by (simp add: truncate_box_fits)
  next
    case False
    with l truncate_box_cuts [of l s] show ?thesis
      by (simp add: ellipsis_terminated_def suffix_def)
  qed
qed

theorem truncate_budget_witness:
  "truncate ''a heap overflow in the parser'' 10 = Inr ''a heap ...''
   \<and> truncate ''short'' 10 = Inr ''short''
   \<and> truncate_box ''a heap overflow in the parser'' 10 = Inr ''a heap ove...''
   \<and> truncate_box ''short'' 10 = Inr ''short''"
  using truncate_budget [of 10 "''a heap overflow in the parser''" 10]
    truncate_budget [of 10 "''short''" 10]
  by simp

text \<open>
  C10. The truncation helper of the table program returns a string exactly when the
  budget is at least 3 or the input already fits; for every string longer than a budget
  below 3 it evaluates \<^verbatim>\<open>s[:max-3]\<close> with a negative bound and panics.
\<close>

theorem truncate_total_iff:
  "((\<exists>r. truncate s mx = Inr r) \<longleftrightarrow> (3 \<le> mx \<or> int (length s) \<le> mx))
   \<and> (int (length s) > mx \<and> mx < 3 \<longrightarrow> truncate s mx = Inl SliceBoundsOutOfRange)"
  by (auto simp: truncate_def)

theorem truncate_total_iff_witness:
  "truncate ''abc'' 2 = Inl SliceBoundsOutOfRange \<and> truncate ''abc'' (-1) = Inl SliceBoundsOutOfRange
   \<and> truncate ''abcd'' 3 = Inr ''...'' \<and> truncate ''ab'' 2 = Inr ''ab''"
  using truncate_total_iff [of "''abc''" 2] truncate_total_iff [of "''abc''" "-1"]
    truncate_total_iff [of "''abcd''" 3] truncate_total_iff [of "''ab''" 2]
  by (auto simp: truncate_def)

section \<open>Properties of the module-manifest parser\<close>

lemmas parse_defs = parseGoMod_def newline_def HasPrefix_def depPattern_def isRegexpSpace_def
  isVersionChar_def Let_def dropCR_def

lemma parseLines_append: "parseLines b coords ls = coords @ parseLines b [] ls"
proof (induction ls arbitrary: b coords)
  case Nil
  then show ?case by simp
next
  case (Cons line rest)
  have IHx: "\<And>b x. parseLines b [x] rest = x # parseLines b [] rest"
    using Cons.IH [of _ "[_]"] by simp
  have IHc: "\<And>b x. parseLines b (coords @ [x]) rest = coords @ x # parseLines b [] rest"
    using Cons.IH [of _ "coords @ [_]"] by simp
  have IH0: "\<And>b. parseLines b coords rest = coords @ parseLines b [] rest"
    by (rule Cons.IH)
  show ?case
    by (simp add: Let_def IHx IHc IH0)
qed

text \<open>
  Inside a requirement block, a line that is neither the block-open nor the block-close
  token and that matches the pattern adds exactly the coordinate of its two groups; a
  line that does not match adds nothing. The flag stays set.
\<close>

lemma parseLines_block_match:
  "\<not> HasPrefix line ''require ('' \<Longrightarrow> \<not> HasPrefix line '')'' \<Longrightarrow> depPattern line = [whole, m, v] \<Longrightarrow>
   parseLines True coords (line # rest)
     = parseLines True (coords @ [''pkg:golang/'' @ m @ ''@v'' @ v]) rest"
  by simp

lemma parseLines_block_skip:
  "\<not> HasPrefix line ''require ('' \<Longrightarrow> \<not> HasPrefix line '')'' \<Longrightarrow> depPattern line = [] \<Longrightarrow>
   parseLines True coords (line # rest) = parseLines True coords rest"
  by simp

text \<open>
  Outside a block, a line with the single-entry marker is matched against the same
  pattern, whose first group starts at the first non-space byte of the line: whenever
  such a line matches, the captured module path begins with the keyword itself.
\<close>

lemma depPattern_groups:
  assumes "depPattern line = [whole, m, v]"
  shows "m = takeWhile (\<lambda>c. \<not> isRegexpSpace c) (dropWhile isRegexpSpace line)"
proof -
  define r3 where "r3 = dropWhile isRegexpSpace
     (dropWhile (\<lambda>c. \<not> isRegexpSpace c) (dropWhile isRegexpSpace line))"
  define modp where "modp = takeWhile (\<lambda>c. \<not> isRegexpSpace c) (dropWhile isRegexpSpace line)"
  have "depPattern line =
     (let lead = takeWhile isRegexpSpace line;
          gap = takeWhile isRegexpSpace
                  (dropWhile (\<lambda>c. \<not> isRegexpSpace c) (dropWhile isRegexpSpace line))
      in if modp = [] \<or> gap = [] then []
         else (case r3 of
                 [] \<Rightarrow> []
               | c # r4 \<Rightarrow>
                   if c \<noteq> CHR ''v'' then []
                   else (let ver = takeWhile isVersionChar r4
                         in if ver = [] then []
                            else [lead @ modp @ gap @ ''v'' @ ver, modp, ver])))"
    unfolding depPattern_def r3_def modp_def Let_def by (rule refl)
  with assms have "m = modp"
    by (cases r3) (simp_all add: Let_def split: if_splits)
  then show ?thesis by (simp add: modp_def)
qed

lemma require_prefix_first_group:
  "takeWhile (\<lambda>c. \<not> isRegexpSpace c) (dropWhile isRegexpSpace (''require'' @ rest))
     = ''require'' @ takeWhile (\<lambda>c. \<not> isRegexpSpace c) rest"
  by (simp add: isRegexpSpace_def)

lemma require_line_captures_keyword:
  assumes "HasPrefix line ''require''" and "depPattern line = [whole, m, v]"
  shows "prefix ''require'' m"
proof -
  from assms(1) obtain rest where line: "line = ''require'' @ rest"
    unfolding HasPrefix_def prefix_def by blast
  have "m = ''require'' @ takeWhile (\<lambda>c. \<not> isRegexpSpace c) rest"
    unfolding depPattern_groups [OF assms(2)] line by (rule require_prefix_first_group)
  then show ?thesis
    by simp
qed

text \<open>
  The matcher decides the language of the pattern: whatever it returns is a match, its
  first element a prefix of the line; every match has the module path the matcher
  returns, and its version is a prefix of the returned one (the last group is greedy);
  the matcher returns nothing exactly on the lines outside the language.
\<close>

lemma depPattern_unfold:
  fixes line
  defines "lead \<equiv> takeWhile isRegexpSpace line"
    and "r1 \<equiv> dropWhile isRegexpSpace line"
  defines "modp \<equiv> takeWhile (\<lambda>c. \<not> isRegexpSpace c) r1"
    and "r2 \<equiv> dropWhile (\<lambda>c. \<not> isRegexpSpace c) r1"
  defines "gap \<equiv> takeWhile isRegexpSpace r2"
    and "r3 \<equiv> dropWhile isRegexpSpace r2"
  shows "depPattern line =
     (if modp = [] \<or> gap = [] \<or> r3 = [] \<or> hd r3 \<noteq> CHR ''v''
         \<or> takeWhile isVersionChar (tl r3) = [] then []
      else [lead @ modp @ gap @ ''v'' @ takeWhile isVersionChar (tl r3), modp,
            takeWhile isVersionChar (tl r3)])"
  unfolding depPattern_def Let_def lead_def r1_def modp_def r2_def gap_def r3_def
  by (cases "dropWhile isRegexpSpace
        (dropWhile (\<lambda>c. \<not> isRegexpSpace c) (dropWhile isRegexpSpace line))")
     (simp_all del: dropWhile_eq_Nil_conv takeWhile_eq_Nil_iff)

lemma depPattern_sound:
  assumes "depPattern line = [whole, m, v]"
  shows "patternMatch line m v \<and> prefix whole line"
proof -
  define lead where "lead = takeWhile isRegexpSpace line"
  define r1 where "r1 = dropWhile isRegexpSpace line"
  define modp where "modp = takeWhile (\<lambda>c. \<not> isRegexpSpace c) r1"
  define r2 where "r2 = dropWhile (\<lambda>c. \<not> isRegexpSpace c) r1"
  define gap where "gap = takeWhile isRegexpSpace r2"
  define r3 where "r3 = dropWhile isRegexpSpace r2"
  define ver where "ver = takeWhile isVersionChar (tl r3)"
  note u = depPattern_unfold [of line, folded lead_def r1_def, folded modp_def r2_def,
      folded gap_def r3_def, folded ver_def]
  from assms u have c: "modp \<noteq> []" "gap \<noteq> []" "r3 \<noteq> []" "hd r3 = CHR ''v''" "ver \<noteq> []"
    and r: "whole = lead @ modp @ gap @ ''v'' @ ver" "m = modp" "v = ver"
    by (auto split: if_splits)
  have l1: "line = lead @ r1" by (simp add: lead_def r1_def)
  have l2: "r1 = modp @ r2" by (simp add: modp_def r2_def)
  have l3: "r2 = gap @ r3" by (simp add: gap_def r3_def)
  have l4: "r3 = ''v'' @ tl r3" using c(3,4) by (cases r3) auto
  have l5: "tl r3 = ver @ dropWhile isVersionChar (tl r3)" by (simp add: ver_def)
  have line: "line = lead @ modp @ gap @ ''v'' @ ver @ dropWhile isVersionChar (tl r3)"
    using l1 l2 l3 l4 l5 by (metis append.assoc)
  have p: "list_all isRegexpSpace lead" "list_all (\<lambda>c. \<not> isRegexpSpace c) modp"
    "list_all isRegexpSpace gap" "list_all isVersionChar ver"
    by (auto simp: list_all_iff lead_def modp_def gap_def ver_def dest: set_takeWhileD)
  have "patternMatch line modp ver"
    unfolding patternMatch_def using line p c by blast
  moreover have "prefix whole line" unfolding r(1) by (subst line) (simp add: prefix_def)
  ultimately show ?thesis by (simp add: r)
qed

lemma depPattern_complete:
  assumes "patternMatch line m v"
  shows "\<exists>whole v'. depPattern line = [whole, m, v'] \<and> prefix v v'"
proof -
  from assms obtain lead gap rest where
    line: "line = lead @ m @ gap @ ''v'' @ v @ rest"
    and p: "list_all isRegexpSpace lead" "m \<noteq> []" "list_all (\<lambda>c. \<not> isRegexpSpace c) m"
      "gap \<noteq> []" "list_all isRegexpSpace gap" "v \<noteq> []" "list_all isVersionChar v"
    unfolding patternMatch_def by blast
  obtain m0 m' where m: "m = m0 # m'" using p(2) by (cases m) auto
  obtain g0 g' where g: "gap = g0 # g'" using p(4) by (cases gap) auto
  have nv: "\<not> isRegexpSpace (CHR ''v'')" by (simp add: isRegexpSpace_def)
  define s3 where "s3 = CHR ''v'' # v @ rest"
  define s2 where "s2 = gap @ s3"
  define s1 where "s1 = m @ s2"
  have line': "line = lead @ s1" by (simp add: line s1_def s2_def s3_def)
  have h3: "s3 \<noteq> []" "hd s3 = CHR ''v''" "tl s3 = v @ rest" by (simp_all add: s3_def)
  have n3: "\<not> isRegexpSpace (hd s3)" using nv by (simp add: h3)
  have t1: "takeWhile isRegexpSpace line = lead"
    and d1: "dropWhile isRegexpSpace line = s1"
    using p(1,3) by (simp_all add: line' s1_def m list_all_iff)
  have t2: "takeWhile (\<lambda>c. \<not> isRegexpSpace c) s1 = m"
    and d2: "dropWhile (\<lambda>c. \<not> isRegexpSpace c) s1 = s2"
    using p(3,5) by (simp_all add: s1_def s2_def g list_all_iff)
  have t3: "takeWhile isRegexpSpace s2 = gap"
    and d3: "dropWhile isRegexpSpace s2 = s3"
    using p(5) nv by (simp_all add: s2_def s3_def list_all_iff)
  have t4: "takeWhile isVersionChar (v @ rest) = v @ takeWhile isVersionChar rest"
    using p(7) by (simp add: list_all_iff)
  have "depPattern line =
          [lead @ m @ gap @ ''v'' @ v @ takeWhile isVersionChar rest, m,
           v @ takeWhile isVersionChar rest]"
    using p(2,4,6) by (simp add: depPattern_unfold t1 d1 t2 d2 t3 d3 h3 t4)
  then show ?thesis by (auto simp: prefix_def)
qed

lemma depPattern_Nil_iff: "depPattern line = [] \<longleftrightarrow> \<not> (\<exists>m v. patternMatch line m v)"
proof
  assume "depPattern line = []"
  then show "\<not> (\<exists>m v. patternMatch line m v)"
    using depPattern_complete by fastforce
next
  assume n: "\<not> (\<exists>m v. patternMatch line m v)"
  have "depPattern line = [] \<or> (\<exists>w m v. depPattern line = [w, m, v])"
    by (simp add: depPattern_unfold)
  with n depPattern_sound show "depPattern line = []" by blast
qed

text \<open>
  C1. The claim holds of lines inside a requirement block, but not of its "in particular":
  a well-formed single-entry requirement line yields no coordinate at all. The pattern
  is anchored at the start of the line and takes the keyword \<^verbatim>\<open>require\<close> as the module
  path, so the next token would have to begin with the letter v; on
  \<^verbatim>\<open>require github.com/beevik/etree v1.1.0\<close> there is no match and the manifest yields
  the empty list.
\<close>

theorem parseGoMod_single_require:
  "parseGoMod (Inr (''require github.com/beevik/etree v1.1.0'' @ [newline])) = Inr []"
  by (simp add: parse_defs)

section \<open>Properties of the report summary\<close>

lemma tableLoop_counts:
  "tableLoop d v results =
     (map (\<lambda>r. CallPrintVulnTable (Coordinates r) (Vulnerabilities r))
        (filter (\<lambda>r. Vulnerabilities r \<noteq> []) results),
      d + affected results, v + found results)"
  by (induction results arbitrary: d v) (auto simp: affected_def found_def)

lemma boxLoop_counts:
  "boxLoop v d results =
     (map (\<lambda>r. CallPrintVulnBox (Coordinates r) (Vulnerabilities r))
        (filter (\<lambda>r. Vulnerabilities r \<noteq> []) results),
      v + found results, d + affected results)"
  by (induction results arbitrary: d v) (auto simp: affected_def found_def)

lemma found_nonneg: "0 \<le> found results"
  by (auto simp: found_def intro!: sum_list_nonneg)

lemma plainLoop_events:
  "plainLoop b results =
     (concat (map (\<lambda>r. Stdout ([newline] @ ''[!] Vulnerabilities found for '' @ Coordinates r
                             @ '':'' @ [newline])
                        # map PrintfVulnerability (Vulnerabilities r))
        (filter (\<lambda>r. Vulnerabilities r \<noteq> []) results)),
      b \<or> found results \<noteq> 0)"
proof (induction results arbitrary: b)
  case Nil
  then show ?case by (simp add: found_def)
next
  case (Cons r rs)
  show ?case
  proof (cases "Vulnerabilities r = []")
    case True
    then show ?thesis using Cons by (simp add: found_def)
  next
    case False
    then have pos: "1 \<le> int (length (Vulnerabilities r))"
      by (cases "Vulnerabilities r") auto
    have "found (r # rs) = int (length (Vulnerabilities r)) + found rs"
      by (simp add: found_def)
    with pos found_nonneg [of rs] have "found (r # rs) \<noteq> 0" by linarith
    then show ?thesis using False Cons by simp
  qed
qed

text \<open>
  C7, as the claim states it, fails on the plain program: for one report with two
  vulnerabilities its \<^verbatim>\<open>printReport\<close> prints the heading and the two entries, and no
  summary line.
\<close>

theorem printReport_plain_no_summary:
  "printReport_plain [report_two] =
     [Stdout ([newline] @ ''[!] Vulnerabilities found for pkg:golang/github.com/foo/bar@v1.2.3:''
              @ [newline]),
      PrintfVulnerability (Vulnerabilities report_two ! 0),
      PrintfVulnerability (Vulnerabilities report_two ! 1)]"
  by (simp add: printReport_plain_def report_two_def)

text \<open>
  C7, amended. For every sequence of reports, the table program and the box program
  render the reports with at least one vulnerability, in order, and then one last line:
  when the total number of vulnerabilities is zero the clean message, and otherwise the
  summary with the number of such reports and the total number of vulnerabilities. The
  plain program renders the same reports, then the clean message when the total is zero,
  and nothing more otherwise.
\<close>

theorem report_summary:
  "tableReport results =
     map (\<lambda>r. CallPrintVulnTable (Coordinates r) (Vulnerabilities r))
       (filter (\<lambda>r. Vulnerabilities r \<noteq> []) results)
     @ [if found results = 0
        then Println ([CHR 0xE2, CHR 0x9C, CHR 0x85] @ '' No known vulnerabilities found!'')
        else Stdout ([newline] @ ''Summary: '' @ showInt (affected results)
               @ '' dependencies affected, '' @ showInt (found results)
               @ '' vulnerabilities found.'' @ [newline])]
   \<and> printReport_box results =
     map (\<lambda>r. CallPrintVulnBox (Coordinates r) (Vulnerabilities r))
       (filter (\<lambda>r. Vulnerabilities r \<noteq> []) results)
     @ [if found results = 0
        then Println (Cyan @ ''No known vulnerabilities found!'' @ Reset)
        else Stdout (Bold @ ''Summary:'' @ Reset @ '' '' @ showInt (affected results)
               @ '' dependencies affected, '' @ showInt (found results)
               @ '' vulnerabilities found.'' @ [newline, newline])]
   \<and> printReport_plain results =
     concat (map (\<lambda>r. Stdout ([newline] @ ''[!] Vulnerabilities found for '' @ Coordinates r
                             @ '':'' @ [newline])
                        # map PrintfVulnerability (Vulnerabilities r))
        (filter (\<lambda>r. Vulnerabilities r \<noteq> []) results))
     @ (if found results = 0 then [Println ''No known vulnerabilities found!''] else [])"
  by (simp add: tableReport_def printReport_box_def printReport_plain_def tableLoop_counts
      boxLoop_counts plainLoop_events)

theorem report_summary_witness:
  "tableReport [report_clean, report_two] =
     [CallPrintVulnTable (Coordinates report_two) (Vulnerabilities report_two),
      Stdout ([newline] @ ''Summary: 1 dependencies affected, 2 vulnerabilities found.''
              @ [newline])]
   \<and> tableReport [report_clean] =
     [Println ([CHR 0xE2, CHR 0x9C, CHR 0x85] @ '' No known vulnerabilities found!'')]
   \<and> printReport_plain [report_clean] = [Println ''No known vulnerabilities found!'']"
  using report_summary [of "[report_clean, report_two]"] report_summary [of "[report_clean]"]
  by (simp add: affected_def found_def report_two_def report_clean_def showInt_def digitChar_def eval_nat_numeral)

section \<open>Properties of the drivers\<close>

lemma tableReport_no_query: "e \<in> set (tableReport results) \<Longrightarrow> \<not> isParseOrNetwork e"
  by (auto simp: tableReport_def tableLoop_counts Println_def split: if_splits)

lemma printReport_plain_no_query:
  "e \<in> set (printReport_plain results) \<Longrightarrow> \<not> isParseOrNetwork e"
  by (auto simp: printReport_plain_def plainLoop_events Println_def split: if_splits)

lemma tableReport_never_queries: "CallCheckVulnerabilities cs \<notin> set (tableReport results)"
  using tableReport_no_query [of "CallCheckVulnerabilities cs" results] by auto

lemma afterParse_queries:
  "afterParse w lang parsed = (es, code) \<Longrightarrow> CallCheckVulnerabilities cs \<in> set es \<Longrightarrow> cs \<noteq> []"
  by (auto simp: afterParse_def Println_def Let_def tableReport_never_queries
      split: sum.splits if_splits)

text \<open>
  C6. In the table program, whenever the selected parser succeeds with no coordinate, the
  run is the call of the parser, the line "No dependencies found." and exit status 0:
  the query client is not invoked. In every run, a call of the query client carries a
  non-empty list of coordinates.
\<close>

theorem no_dependencies_short_circuit:
  "(length args = 3 \<and> args ! 1 = ''go'' \<and> parseGoMod (goModFile w (args ! 2)) = Inr []
      \<longrightarrow> main w args = ([CallParseGoMod (args ! 2), Println ''No dependencies found.''], 0))
   \<and> (length args = 3 \<and> args ! 1 = ''java'' \<and> pomXML w (args ! 2) = Inr []
      \<longrightarrow> main w args = ([CallParsePomXML (args ! 2), Println ''No dependencies found.''], 0))
   \<and> (\<forall>cs. CallCheckVulnerabilities cs \<in> set (fst (main w args)) \<longrightarrow> cs \<noteq> [])"
proof (intro conjI impI allI)
  fix cs
  assume "CallCheckVulnerabilities cs \<in> set (fst (main w args))"
  then show "cs \<noteq> []"
    by (auto simp: main_def Let_def Println_def split: if_splits prod.splits
        dest: afterParse_queries)
qed (simp_all add: main_def afterParse_def)

theorem no_dependencies_short_circuit_witness:
  "main world_block [''vulnscanner'', ''java'', ''/srv/app''] =
     ([CallParsePomXML ''/srv/app'', Println ''No dependencies found.''], 0)
   \<and> main (world_block\<lparr>goModFile := (\<lambda>path. Inr ''module example'')\<rparr>)
        [''vulnscanner'', ''go'', ''/srv/app''] =
     ([CallParseGoMod ''/srv/app'', Println ''No dependencies found.''], 0)"
  using no_dependencies_short_circuit [of "[''vulnscanner'', ''java'', ''/srv/app'']" world_block]
    no_dependencies_short_circuit [of "[''vulnscanner'', ''go'', ''/srv/app'']"
      "world_block\<lparr>goModFile := (\<lambda>path. Inr ''module example'')\<rparr>"]
  by (simp add: world_block_def parse_defs)

text \<open>
  C9, as the claim states it, fails on the plain program (and the box programs, whose
  \<^verbatim>\<open>main\<close> is the same text): an extra argument is ignored, the manifest is parsed and the
  lookup service is queried, and the exit status is 0.
\<close>

theorem main_plain_accepts_extra_arguments:
  "main_plain world_block [''vulnscanner'', ''go'', ''/srv/app'', ''extra''] =
     ([CallStat ''/srv/app'' ''go.mod'', Println ''Parsing go.mod...'', CallParseGoMod ''/srv/app'',
       Stdout (''Found 1 dependencies. Checking vulnerabilities...'' @ [newline]),
       CallCheckVulnerabilities [''pkg:golang/github.com/foo/bar@v1.2.3''],
       Println ''No known vulnerabilities found!''], 0)"
  by (simp add: main_plain_def world_block_def ToLower_def lowerByte_def parse_defs
      afterParse_plain_def printReport_plain_def showInt_def digitChar_def report_clean_def)

text \<open>
  C9, amended. The table program, given other than exactly two arguments, prints its
  usage line and exits with status 1; given two arguments and a selector other than the
  literals \<^verbatim>\<open>go\<close> and \<^verbatim>\<open>java\<close>, it prints the supported languages and exits with status 1.
  The plain program, given fewer than two arguments, prints its three usage lines and
  exits with status 1; given at least two, it behaves as on the first two alone (extra
  arguments are ignored), and when the lower-cased selector is neither \<^verbatim>\<open>go\<close> nor
  \<^verbatim>\<open>java\<close> it prints the supported languages and exits with status 1. None of these
  runs parses a manifest or calls the lookup service. (On a selector with a byte from
  128 on, Go lower-cases through the Unicode tables; no rune outside ASCII lower-cases
  to a letter of \<^verbatim>\<open>go\<close> or \<^verbatim>\<open>java\<close>, so such a selector is rejected as in the model.)
\<close>

theorem usage_errors:
  "(length args \<noteq> 3
      \<longrightarrow> main w args = ([Println ''Usage: vulnscanner [go|java] /path/to/project''], 1))
   \<and> (length args = 3 \<and> args ! 1 \<noteq> ''go'' \<and> args ! 1 \<noteq> ''java''
      \<longrightarrow> main w args = ([Println ''Supported languages: go, java''], 1))
   \<and> (length args < 3 \<longrightarrow> main_plain w args = (usage_plain, 1))
   \<and> (3 \<le> length args \<and> ToLower (args ! 1) \<noteq> ''go'' \<and> ToLower (args ! 1) \<noteq> ''java''
      \<longrightarrow> main_plain w args = ([Println ''Supported languages: go, java''], 1))
   \<and> (3 \<le> length args \<longrightarrow> main_plain w args = main_plain w (take 3 args))
   \<and> \<not> list_ex isParseOrNetwork [Println ''Usage: vulnscanner [go|java] /path/to/project'']
   \<and> \<not> list_ex isParseOrNetwork [Println ''Supported languages: go, java'']
   \<and> \<not> list_ex isParseOrNetwork usage_plain"
  by (simp add: main_def main_plain_def Let_def Println_def usage_plain_def)

theorem usage_errors_witness:
  "main world_block [''vulnscanner'', ''go''] =
     ([Println ''Usage: vulnscanner [go|java] /path/to/project''], 1)
   \<and> main world_block [''vulnscanner'', ''go'', ''/srv/app'', ''extra''] =
     ([Println ''Usage: vulnscanner [go|java] /path/to/project''], 1)
   \<and> main world_block [''vulnscanner'', ''GO'', ''/srv/app''] =
     ([Println ''Supported languages: go, java''], 1)
   \<and> main_plain world_block [''vulnscanner'', ''go''] = (usage_plain, 1)
   \<and> main_plain world_block [''vulnscanner'', ''rust'', ''/srv/app''] =
     ([Println ''Supported languages: go, java''], 1)"
  using usage_errors [of "[''vulnscanner'', ''go'']" world_block]
    usage_errors [of "[''vulnscanner'', ''go'', ''/srv/app'', ''extra'']" world_block]
    usage_errors [of "[''vulnscanner'', ''GO'', ''/srv/app'']" world_block]
    usage_errors [of "[''vulnscanner'', ''rust'', ''/srv/app'']" world_block]
  by (simp add: ToLower_def lowerByte_def)

section \<open>Properties of runes and fields\<close>

text \<open>
  Decoding is local. A rune decoded from a string is decoded alike when an ASCII byte
  follows the string, and alike from every prefix that holds the bytes of the rune.
\<close>

lemma decodeBytes_append_ascii:
  assumes "a \<noteq> []" and "c < 0x80"
  shows "decodeBytes (a @ c # b) = decodeBytes a"
proof -
  from assms(1) obtain b0 r where a: "a = b0 # r" by (cases a) auto
  show ?thesis
  proof (cases "leadInfo b0")
    case None
    then show ?thesis by (simp add: decodeBytes_def a)
  next
    case (Some t)
    obtain sz lo hi where t: "t = (sz, lo, hi)" by (cases t) auto
    from leadInfo_Some [of b0 sz lo hi] Some t
    have sz: "sz = 2 \<or> sz = 3 \<or> sz = 4" and lo: "0x80 \<le> lo" by auto
    consider (l1) "r = []" | (l2) x where "r = [x]" | (l3) x y where "r = [x, y]"
      | (l4) x y z w where "r = x # y # z # w"
      by (cases r rule: list.exhaust; simp) (metis list.exhaust)
    then show ?thesis
    proof cases
      case l1
      then show ?thesis using sz lo assms(2) by (auto simp: decodeBytes_def a Some t Let_def)
    next
      case l2
      then show ?thesis using sz lo assms(2) by (auto simp: decodeBytes_def a Some t Let_def)
    next
      case l3
      then show ?thesis using sz lo assms(2) by (auto simp: decodeBytes_def a Some t Let_def)
    next
      case l4
      then show ?thesis using sz lo assms(2) by (auto simp: decodeBytes_def a Some t Let_def)
    qed
  qed
qed

lemma decodeBytes_prefix:
  assumes "a \<noteq> []" and "snd (decodeBytes (a @ b)) \<le> length a"
  shows "decodeBytes a = decodeBytes (a @ b)"
proof -
  from assms(1) obtain b0 r where a: "a = b0 # r" by (cases a) auto
  show ?thesis
  proof (cases "leadInfo b0")
    case None
    then show ?thesis by (simp add: decodeBytes_def a)
  next
    case (Some t)
    obtain sz lo hi where t: "t = (sz, lo, hi)" by (cases t) auto
    from leadInfo_Some [of b0 sz lo hi] Some t
    have sz: "sz = 2 \<or> sz = 3 \<or> sz = 4" by auto
    consider (l1) "r = []" | (l2) x where "r = [x]" | (l3) x y where "r = [x, y]"
      | (l4) x y z w where "r = x # y # z # w"
      by (cases r rule: list.exhaust; simp) (metis list.exhaust)
    then show ?thesis
    proof cases
      case l1
      then show ?thesis using sz assms(2)
        by (auto simp: decodeBytes_def a Some t Let_def split: if_splits)
    next
      case l2
      then show ?thesis using sz assms(2)
        by (auto simp: decodeBytes_def a Some t Let_def split: if_splits)
    next
      case l3
      then show ?thesis using sz assms(2)
        by (auto simp: decodeBytes_def a Some t Let_def split: if_splits)
    next
      case l4
      then show ?thesis using sz assms(2)
        by (auto simp: decodeBytes_def a Some t Let_def split: if_splits)
    qed
  qed
qed

lemma DecodeRuneInString_prefix:
  "a \<noteq> [] \<Longrightarrow> snd (DecodeRuneInString (a @ b)) \<le> length a \<Longrightarrow>
   DecodeRuneInString a = DecodeRuneInString (a @ b)"
  using decodeBytes_prefix [of "map of_char a" "map of_char b"]
  by (simp add: DecodeRuneInString_def)

lemma runes_Nil [simp]: "runes [] = []"
  by (simp add: runes.simps)

lemma runes_step:
  "s \<noteq> [] \<Longrightarrow>
   runes s = (fst (DecodeRuneInString s), take (snd (DecodeRuneInString s)) s)
             # runes (drop (snd (DecodeRuneInString s)) s)"
  by (subst runes.simps) simp

lemma DecodeRuneInString_append_ascii:
  "a \<noteq> [] \<Longrightarrow> (of_char c :: nat) < 0x80 \<Longrightarrow>
   DecodeRuneInString (a @ c # b) = DecodeRuneInString a"
  using decodeBytes_append_ascii [of "map of_char a" "of_char c" "map of_char b"]
  by (simp add: DecodeRuneInString_def)

lemma DecodeRuneInString_ascii:
  "(of_char c :: nat) < 0x80 \<Longrightarrow> DecodeRuneInString (c # b) = (of_char c, 1)"
  by (simp add: DecodeRuneInString_def decodeBytes_def)

lemma runes_append_ascii:
  assumes "(of_char c :: nat) < 0x80"
  shows "runes (a @ c # b) = runes a @ (of_char c, [c]) # runes b"
proof (induction a rule: length_induct)
  case (1 a)
  show ?case
  proof (cases "a = []")
    case True
    then show ?thesis
      using assms by (simp add: runes_step DecodeRuneInString_ascii)
  next
    case False
    let ?n = "snd (DecodeRuneInString a)"
    have n: "0 < ?n" "?n \<le> length a"
      using DecodeRuneInString_width [OF False] by auto
    have dec: "DecodeRuneInString (a @ c # b) = DecodeRuneInString a"
      using False assms by (rule DecodeRuneInString_append_ascii)
    have "length (drop ?n a) < length a" using n False by simp
    then have IH: "runes (drop ?n a @ c # b) = runes (drop ?n a) @ (of_char c, [c]) # runes b"
      using 1 by blast
    have "runes (a @ c # b) =
            (fst (DecodeRuneInString a), take ?n a) # runes (drop ?n a @ c # b)"
      using n by (subst runes_step) (simp_all add: dec)
    also have "\<dots> = runes a @ (of_char c, [c]) # runes b"
      using IH False by (simp add: runes_step [of a])
    finally show ?thesis .
  qed
qed

lemma RuneCount_join:
  "RuneCountInString (a @ '' '' @ b) = RuneCountInString a + 1 + RuneCountInString b"
  using runes_append_ascii [of "CHR '' ''" a b] by (simp add: RuneCountInString_def)

text \<open>
  Every stretch of the runes of a string decodes to itself, so the rune count of a field
  is the number of runes it was built from.
\<close>

lemma bytesOf_simps [simp]:
  "bytesOf [] = []" "bytesOf (u # us) = snd u @ bytesOf us" "bytesOf (us @ vs) = bytesOf us @ bytesOf vs"
  by (simp_all add: bytesOf_def)

lemma bytesOf_runes: "bytesOf (runes s) = s"
proof (induction s rule: length_induct)
  case (1 s)
  show ?case
  proof (cases "s = []")
    case True
    then show ?thesis by simp
  next
    case False
    let ?n = "snd (DecodeRuneInString s)"
    have "length (drop ?n s) < length s"
      using DecodeRuneInString_width [OF False] False by simp
    then have "bytesOf (runes (drop ?n s)) = drop ?n s" using 1 by blast
    then show ?thesis by (simp add: runes_step [OF False])
  qed
qed

lemma selfDecoding_runes: "selfDecoding (runes s)"
  by (simp add: selfDecoding_def bytesOf_runes)

lemma runes_Cons_D:
  assumes "runes x = u # us"
  shows "x \<noteq> [] \<and> snd u \<noteq> [] \<and> x = snd u @ drop (length (snd u)) x
         \<and> length (snd u) = snd (DecodeRuneInString x)
         \<and> fst u = fst (DecodeRuneInString x)
         \<and> runes (drop (length (snd u)) x) = us"
proof -
  have x: "x \<noteq> []" using assms by auto
  let ?n = "snd (DecodeRuneInString x)"
  have n: "0 < ?n" "?n \<le> length x" using DecodeRuneInString_width [OF x] by auto
  from assms runes_step [OF x]
  have u: "u = (fst (DecodeRuneInString x), take ?n x)" and us: "us = runes (drop ?n x)"
    by auto
  have len: "length (snd u) = ?n" using n by (simp add: u)
  show ?thesis using x n len us by (auto simp: u)
qed

lemma selfDecoding_tail: "selfDecoding (u # us) \<Longrightarrow> selfDecoding us"
  using runes_Cons_D [of "bytesOf (u # us)" u us] by (simp add: selfDecoding_def)

lemma selfDecoding_suffix: "selfDecoding (us @ vs) \<Longrightarrow> selfDecoding vs"
  by (induction us) (auto dest: selfDecoding_tail)

lemma selfDecoding_prefix: "selfDecoding (us @ vs) \<Longrightarrow> selfDecoding us"
proof (induction us)
  case Nil
  then show ?case by (simp add: selfDecoding_def)
next
  case (Cons u us)
  let ?x = "bytesOf ((u # us) @ vs)"
  let ?y = "bytesOf (u # us)"
  from Cons.prems have rx: "runes ?x = u # (us @ vs)" by (simp add: selfDecoding_def)
  note D = runes_Cons_D [OF rx]
  have tl: "selfDecoding (us @ vs)" using Cons.prems by (auto dest: selfDecoding_tail)
  then have IH: "runes (bytesOf us) = us" using Cons.IH by (simp add: selfDecoding_def)
  have y: "?y \<noteq> []" using D by simp
  have xy: "?x = ?y @ bytesOf vs" by simp
  have "snd (DecodeRuneInString (?y @ bytesOf vs)) \<le> length ?y"
    using D by (simp flip: xy)
  then have dec: "DecodeRuneInString ?y = DecodeRuneInString ?x"
    using DecodeRuneInString_prefix [OF y, of "bytesOf vs"] by (simp flip: xy)
  have n: "snd (DecodeRuneInString ?y) = length (snd u)" using D dec by simp
  have "runes ?y = (fst (DecodeRuneInString ?y), take (length (snd u)) ?y)
                   # runes (drop (length (snd u)) ?y)"
    using runes_step [OF y] n by simp
  also have "\<dots> = u # us"
    using D dec IH by (simp add: prod_eq_iff)
  finally show ?case by (simp add: selfDecoding_def)
qed

lemma selfDecoding_count: "selfDecoding us \<Longrightarrow> RuneCountInString (bytesOf us) = length us"
  by (simp add: selfDecoding_def RuneCountInString_def)

lemma selfDecoding_nonempty: "selfDecoding us \<Longrightarrow> us \<noteq> [] \<Longrightarrow> bytesOf us \<noteq> []"
  by (auto simp: selfDecoding_def)

lemma fieldsLoop_runeTotal:
  "selfDecoding (cu @ us) \<Longrightarrow> runeTotal (fieldsLoop (bytesOf cu) us) \<le> length cu + length us + 1"
proof (induction us arbitrary: cu)
  case Nil
  then show ?case using selfDecoding_count [of cu] by simp
next
  case (Cons u us)
  obtain r bs where u: "u = (r, bs)" by (cases u) auto
  have cu: "selfDecoding cu" using Cons.prems by (rule selfDecoding_prefix)
  show ?case
  proof (cases "IsSpace r")
    case True
    have "selfDecoding ([] @ us)"
      using selfDecoding_suffix [of "cu @ [u]" us] Cons.prems by simp
    from Cons.IH [OF this] have "runeTotal (fieldsLoop [] us) \<le> length us + 1" by simp
    then show ?thesis using True selfDecoding_count [OF cu] by (simp add: u)
  next
    case False
    have "selfDecoding ((cu @ [u]) @ us)" using Cons.prems by simp
    from Cons.IH [OF this] show ?thesis using False by (simp add: u)
  qed
qed

lemma Fields_runeTotal: "runeTotal (Fields s) \<le> RuneCountInString s + 1"
  using fieldsLoop_runeTotal [of "[]" "runes s"] selfDecoding_runes [of s]
  by (simp add: Fields_def RuneCountInString_def)

lemma runeTotal_append: "runeTotal (xs @ ys) = runeTotal xs + runeTotal ys"
  by (induction xs) auto

lemma runeTotal_joinSpace: "ws \<noteq> [] \<Longrightarrow> RuneCountInString (joinSpace ws) + 1 = runeTotal ws"
proof (induction ws rule: joinSpace.induct)
  case (3 w v ws)
  then show ?case using RuneCount_join [of w "joinSpace (v # ws)"] by simp
qed simp_all

lemma fieldsLoop_nonspace:
  "\<not> list_ex (\<lambda>u. IsSpace (fst u)) us \<Longrightarrow>
   fieldsLoop cur (us @ vs) = fieldsLoop (cur @ bytesOf us) vs"
  by (induction us arbitrary: cur) (auto simp: list_ex_iff)

lemma Fields_word: "isWord w \<Longrightarrow> Fields w = [w]"
  using fieldsLoop_nonspace [of "runes w" "[]" "[]"]
  by (simp add: isWord_def Fields_def bytesOf_runes)

lemma Fields_word_space:
  assumes "isWord w"
  shows "Fields (w @ CHR '' '' # rest) = w # Fields rest"
proof -
  have r: "runes (w @ CHR '' '' # rest) = runes w @ (32, '' '') # runes rest"
    using runes_append_ascii [of "CHR '' ''" w rest] by simp
  have "fieldsLoop [] (runes w @ (32, '' '') # runes rest)
          = fieldsLoop w ((32, '' '') # runes rest)"
    using fieldsLoop_nonspace [of "runes w" "[]" "(32, '' '') # runes rest"] assms
    by (simp add: isWord_def bytesOf_runes)
  moreover have "IsSpace 32" by (simp add: IsSpace_def)
  moreover have "w \<noteq> []" using assms by (simp add: isWord_def)
  ultimately show ?thesis by (simp add: Fields_def r)
qed

lemma Fields_joinSpace: "list_all isWord ws \<Longrightarrow> Fields (joinSpace ws) = ws"
proof (induction ws rule: joinSpace.induct)
  case 1
  show ?case by (simp add: Fields_def)
next
  case (2 w)
  then show ?case by (simp add: Fields_word)
next
  case (3 w v ws)
  then show ?case using Fields_word_space [of w "joinSpace (v # ws)"] by simp
qed

section \<open>Properties of word wrapping\<close>

lemma joinSpace_snoc: "g \<noteq> [] \<Longrightarrow> joinSpace (g @ [w]) = joinSpace g @ '' '' @ w"
  by (induction g rule: joinSpace.induct) auto

lemma wrapLoop_groups:
  assumes "g \<noteq> []"
    and "length g = 1 \<or> int (RuneCountInString (joinSpace g)) \<le> width"
  shows "\<exists>groups. concat groups = g @ ws
           \<and> wrapLoop width lines (joinSpace g) ws = lines @ map joinSpace groups
           \<and> (\<forall>h\<in>set groups. h \<noteq> []
                 \<and> (length h = 1 \<or> int (RuneCountInString (joinSpace h)) \<le> width))"
  using assms
proof (induction ws arbitrary: g lines)
  case Nil
  then show ?case by (intro exI [of _ "[g]"]) simp
next
  case (Cons w ws)
  show ?case
  proof (cases "int (RuneCountInString (joinSpace g)) + 1 + int (RuneCountInString w) > width")
    case True
    from Cons.IH [of "[w]" "lines @ [joinSpace g]"]
    obtain groups where gr: "concat groups = [w] @ ws"
      "wrapLoop width (lines @ [joinSpace g]) (joinSpace [w]) ws
         = (lines @ [joinSpace g]) @ map joinSpace groups"
      "\<forall>h\<in>set groups. h \<noteq> []
         \<and> (length h = 1 \<or> int (RuneCountInString (joinSpace h)) \<le> width)"
      by auto
    show ?thesis
      using True gr Cons.prems by (intro exI [of _ "g # groups"]) simp
  next
    case False
    have j: "joinSpace (g @ [w]) = joinSpace g @ '' '' @ w"
      using Cons.prems(1) by (rule joinSpace_snoc)
    have "int (RuneCountInString (joinSpace (g @ [w]))) \<le> width"
      using False RuneCount_join [of "joinSpace g" w] by (simp add: j)
    with Cons.IH [of "g @ [w]" lines]
    obtain groups where gr: "concat groups = (g @ [w]) @ ws"
      "wrapLoop width lines (joinSpace (g @ [w])) ws = lines @ map joinSpace groups"
      "\<forall>h\<in>set groups. h \<noteq> []
         \<and> (length h = 1 \<or> int (RuneCountInString (joinSpace h)) \<le> width)"
      by auto
    show ?thesis
      using False gr by (intro exI [of _ groups]) (simp add: j)
  qed
qed

lemma wrapText_groups:
  "(Fields s = [] \<longrightarrow> wrapText s width = [''''])
   \<and> (Fields s \<noteq> [] \<longrightarrow>
        (\<exists>groups. concat groups = Fields s
           \<and> wrapText s width = map joinSpace groups
           \<and> (\<forall>h\<in>set groups. h \<noteq> []
                 \<and> (length h = 1 \<or> int (RuneCountInString (joinSpace h)) \<le> width))))"
proof (cases "Fields s")
  case Nil
  then show ?thesis by (simp add: wrapText_def)
next
  case (Cons w ws)
  from wrapLoop_groups [of "[w]" width ws "[]"]
  show ?thesis by (simp add: wrapText_def Cons)
qed

lemma wrapLoop_fits:
  "g \<noteq> [] \<Longrightarrow> int (runeTotal (g @ ws)) \<le> width + 1 \<Longrightarrow>
   wrapLoop width lines (joinSpace g) ws = lines @ [joinSpace (g @ ws)]"
proof (induction ws arbitrary: g)
  case Nil
  then show ?case by simp
next
  case (Cons w ws)
  have "int (RuneCountInString (joinSpace g)) + 1 + int (RuneCountInString w) + 1
          = int (runeTotal (g @ [w]))"
    using runeTotal_joinSpace [OF Cons.prems(1)] by (simp add: runeTotal_append)
  moreover have "runeTotal (g @ [w]) \<le> runeTotal (g @ w # ws)" by (simp add: runeTotal_append)
  ultimately have fits: "\<not> int (RuneCountInString (joinSpace g)) + 1 + int (RuneCountInString w) > width"
    using Cons.prems(2) by linarith
  have "wrapLoop width lines (joinSpace (g @ [w])) ws = lines @ [joinSpace ((g @ [w]) @ ws)]"
    using Cons.prems by (intro Cons.IH) simp_all
  then show ?case using fits joinSpace_snoc [OF Cons.prems(1), of w] by simp
qed

lemma wrapText_short:
  assumes "int (RuneCountInString s) \<le> width"
  shows "wrapText s width = [joinSpace (Fields s)]"
proof (cases "Fields s")
  case Nil
  then show ?thesis by (simp add: wrapText_def)
next
  case (Cons w ws)
  have "int (runeTotal ([w] @ ws)) \<le> width + 1"
    using Fields_runeTotal [of s] assms by (simp add: Cons)
  from wrapLoop_fits [OF _ this, of "[]"] show ?thesis
    by (simp add: wrapText_def Cons)
qed

lemma runeTotal_member: "w \<in> set ws \<Longrightarrow> RuneCountInString w + 1 \<le> runeTotal ws"
  by (induction ws) auto

lemma long_word_alone:
  assumes "h \<noteq> []" and "length h = 1 \<or> int (RuneCountInString (joinSpace h)) \<le> width"
    and "w \<in> set h" and "int (RuneCountInString w) > width"
  shows "h = [w]"
proof -
  have "RuneCountInString w \<le> RuneCountInString (joinSpace h)"
    using runeTotal_member [OF assms(3)] runeTotal_joinSpace [OF assms(1)] by simp
  with assms(2,4) have "length h = 1" by linarith
  with assms(3) show ?thesis by (cases h) auto
qed

text \<open>
  Evaluation on concrete strings: the runes of an ASCII string are its bytes, and the
  runes of any non-empty string unfold one decoding step at a time.
\<close>

lemma runes_ascii:
  "\<not> list_ex (\<lambda>c. 0x80 \<le> (of_char c :: nat)) s \<Longrightarrow> runes s = map (\<lambda>c. (of_char c, [c])) s"
proof (induction s)
  case Nil
  then show ?case by simp
next
  case (Cons c s)
  then show ?case by (simp add: runes_step DecodeRuneInString_ascii)
qed

lemma runes_Cons_eval:
  "runes (c # s) =
     (fst (DecodeRuneInString (c # s)), take (snd (DecodeRuneInString (c # s))) (c # s))
     # runes (drop (snd (DecodeRuneInString (c # s))) (c # s))"
  by (rule runes_step) simp

lemmas ascii_eval = wrapText_def Fields_def RuneCountInString_def runes_ascii IsSpace_def

lemmas rune_eval = wrapText_def Fields_def RuneCountInString_def runes_Cons_eval IsSpace_def
  DecodeRuneInString_def decodeBytes_def leadInfo_def RuneError_def Let_def

text \<open>
  C4, as the claim states it, fails where the text has no word: the only line is the
  empty line, which is not an input word, and at a negative width its rune count of
  zero exceeds the width, so it is not a run of words within the width either.
\<close>

theorem wrapText_empty_line:
  "wrapText '''' (- 1) = [''''] \<and> '''' \<notin> set (Fields '''')
   \<and> \<not> int (RuneCountInString '''') \<le> - 1"
  by (simp add: ascii_eval)

text \<open>
  C4, amended. A text without words is wrapped to the single empty line. For a text
  with words and every width, the lines are the words of the text cut, in order, into
  consecutive non-empty groups, each line being the words of its group joined by single
  spaces. A group is a single word, or its line has a rune count (not a byte count) of
  at most the width; a word whose rune count exceeds the width is alone in its group,
  never split.
\<close>

theorem wrapText_lines:
  "(Fields s = [] \<longrightarrow> wrapText s width = [''''])
   \<and> (Fields s \<noteq> [] \<longrightarrow>
        (\<exists>groups. concat groups = Fields s
           \<and> wrapText s width = map joinSpace groups
           \<and> (\<forall>h\<in>set groups. h \<noteq> []
                 \<and> (length h = 1 \<or> int (RuneCountInString (joinSpace h)) \<le> width)
                 \<and> (\<forall>w\<in>set h. int (RuneCountInString w) > width \<longrightarrow> h = [w]))))"
proof (intro conjI impI)
  assume "Fields s = []"
  then show "wrapText s width = ['''']" using wrapText_groups [of s width] by simp
next
  assume "Fields s \<noteq> []"
  with wrapText_groups [of s width] obtain groups where
    g: "concat groups = Fields s" "wrapText s width = map joinSpace groups"
      "\<forall>h\<in>set groups. h \<noteq> []
         \<and> (length h = 1 \<or> int (RuneCountInString (joinSpace h)) \<le> width)"
    by auto
  have "\<forall>h\<in>set groups. \<forall>w\<in>set h. int (RuneCountInString w) > width \<longrightarrow> h = [w]"
    using g(3) long_word_alone by blast
  with g show "\<exists>groups. concat groups = Fields s
           \<and> wrapText s width = map joinSpace groups
           \<and> (\<forall>h\<in>set groups. h \<noteq> []
                 \<and> (length h = 1 \<or> int (RuneCountInString (joinSpace h)) \<le> width)
                 \<and> (\<forall>w\<in>set h. int (RuneCountInString w) > width \<longrightarrow> h = [w]))"
    by (intro exI [of _ groups]) simp
qed

theorem wrapText_lines_witness:
  "Fields ''the quick brown fox jumps'' = [''the'', ''quick'', ''brown'', ''fox'', ''jumps'']
   \<and> wrapText ''the quick brown fox jumps'' 10 = [''the quick'', ''brown fox'', ''jumps'']
   \<and> wrapText ''supercalifragilistic is long'' 5 = [''supercalifragilistic'', ''is'', ''long'']
   \<and> Fields ''   '' = [] \<and> wrapText ''   '' 5 = ['''']"
  using wrapText_lines [of "''the quick brown fox jumps''" 10]
    wrapText_lines [of "''   ''" 5]
  by (simp add: ascii_eval)

text \<open>
  The width counts runes: a line of 13 bytes and 12 runes (the e with acute accent is
  two bytes) fits the width 12, and is broken at the width 11.
\<close>

lemma wrapText_counts_runes:
  "length (''caf'' @ [CHR 0xC3, CHR 0xA9] @ '' au lait'') = 13
   \<and> wrapText (''caf'' @ [CHR 0xC3, CHR 0xA9] @ '' au lait'') 12
       = [''caf'' @ [CHR 0xC3, CHR 0xA9] @ '' au lait'']
   \<and> wrapText (''caf'' @ [CHR 0xC3, CHR 0xA9] @ '' au lait'') 11
       = [''caf'' @ [CHR 0xC3, CHR 0xA9] @ '' au'', ''lait'']"
  by (simp add: rune_eval)

text \<open>
  C5, as the claim states it, fails on a string with a doubled space: it is shorter than
  the width, yet the single line returned is not the string itself.
\<close>

theorem wrapText_not_identity:
  "int (RuneCountInString ''a  b'') < 10 \<and> wrapText ''a  b'' 10 = [''a b'']
   \<and> [''a b''] \<noteq> [''a  b'']"
  by (simp add: ascii_eval)

text \<open>
  C5, amended. For every string whose rune count does not exceed the width (in
  particular every string shorter than the width), wrapping returns a single-element
  sequence whose element is the words of the string joined by single spaces; it is the
  string itself when the string has that form already, words separated by one space
  each with no other white space (the empty string included). The function is a function
  of its two arguments only: it reads and writes no state.
\<close>

theorem wrapText_short_string:
  "(int (RuneCountInString s) \<le> width \<longrightarrow> wrapText s width = [joinSpace (Fields s)])
   \<and> (int (RuneCountInString s) \<le> width \<and> s = joinSpace ws \<and> list_all isWord ws
        \<longrightarrow> wrapText s width = [s])"
  using wrapText_short [of s width] Fields_joinSpace [of ws] by auto

theorem wrapText_short_string_witness:
  "wrapText ''no known fix'' 40 = [''no known fix'']
   \<and> wrapText ''  no   known fix '' 40 = [''no known fix'']
   \<and> wrapText '''' 40 = ['''']"
  using wrapText_short_string [of "''no known fix''" 40 "[''no'', ''known'', ''fix'']"]
    wrapText_short_string [of "''  no   known fix ''" 40 "[]"]
    wrapText_short_string [of "''''" 40 "[]"]
  by (simp add: ascii_eval isWord_def)

section \<open>Properties of the upgrade hint\<close>

lemma indexFrom_spec:
  "(\<not> sublist p s \<longrightarrow> indexFrom i s p = - 1)
   \<and> (sublist p s \<longrightarrow> (\<exists>a c. firstOccurrence s p a c \<and> indexFrom i s p = int (i + length a)))"
proof (induction s arbitrary: i)
  case Nil
  show ?case by (auto simp: firstOccurrence_def)
next
  case (Cons x xs)
  show ?case
  proof (cases "prefix p (x # xs)")
    case True
    then obtain c where c: "x # xs = p @ c" by (auto simp: prefix_def)
    then have "firstOccurrence (x # xs) p [] c" by (simp add: firstOccurrence_def)
    moreover have "sublist p (x # xs)" using True by (rule prefix_imp_sublist)
    ultimately show ?thesis using True by (intro conjI impI) (simp, rule exI [of _ "[]"], auto)
  next
    case False
    have sub: "sublist p (x # xs) \<longleftrightarrow> sublist p xs"
      using False by (simp add: sublist_Cons_right)
    show ?thesis
    proof (intro conjI impI)
      assume "\<not> sublist p (x # xs)"
      then show "indexFrom i (x # xs) p = - 1" using False sub Cons.IH [of "Suc i"] by simp
    next
      assume "sublist p (x # xs)"
      then have "sublist p xs" using sub by simp
      with Cons.IH [of "Suc i"] obtain a c where
        fo: "firstOccurrence xs p a c" and ix: "indexFrom (Suc i) xs p = int (Suc i + length a)"
        by auto
      have "firstOccurrence (x # xs) p (x # a) c"
        unfolding firstOccurrence_def
      proof (intro conjI allI impI)
        show "x # xs = (x # a) @ p @ c" using fo by (simp add: firstOccurrence_def)
      next
        fix a' c'
        assume eq: "x # xs = a' @ p @ c'"
        show "length (x # a) \<le> length a'"
        proof (cases a')
          case Nil
          with eq have "prefix p (x # xs)" by (simp add: prefix_def)
          with False show ?thesis by simp
        next
          case (Cons y a'')
          with eq have "xs = a'' @ p @ c'" by simp
          with fo have "length a \<le> length a''" by (auto simp: firstOccurrence_def)
          then show ?thesis using Cons by simp
        qed
      qed
      then show "\<exists>a c. firstOccurrence (x # xs) p a c
                   \<and> indexFrom i (x # xs) p = int (i + length a)"
        using False ix by (intro exI [of _ "x # a"] exI [of _ c]) simp
    qed
  qed
qed

lemma firstOccurrence_unique:
  assumes "firstOccurrence s p a c" and "firstOccurrence s p a' c'"
  shows "a = a' \<and> c = c'"
proof -
  from assms have "length a \<le> length a'" and "length a' \<le> length a"
    unfolding firstOccurrence_def by blast+
  then have "length a = length a'" by simp
  with assms show ?thesis by (auto simp: firstOccurrence_def)
qed

lemma Index_absent: "Index s p = - 1 \<longleftrightarrow> \<not> sublist p s"
  using indexFrom_spec [of p s 0] by (auto simp: Index_def)

lemma Index_first:
  "firstOccurrence s p a c \<Longrightarrow> Index s p = int (length a) \<and> drop (nat (Index s p + int (length p))) s = c"
proof -
  assume fo: "firstOccurrence s p a c"
  then have "sublist p s" by (auto simp: firstOccurrence_def sublist_def)
  with indexFrom_spec [of p s 0] obtain a' c' where
    fo': "firstOccurrence s p a' c'" and ix: "Index s p = int (length a')"
    by (auto simp: Index_def)
  from firstOccurrence_unique [OF fo fo'] have "a' = a" "c' = c" by auto
  then show ?thesis using ix fo by (simp add: firstOccurrence_def nat_add_distrib)
qed

lemma tokenAfter_Some:
  "tokenAfter lower p = Some t \<longleftrightarrow>
     (\<exists>a c. firstOccurrence lower p a c \<and> Fields c \<noteq> [] \<and> t = hd (Fields c))"
proof
  assume ta: "tokenAfter lower p = Some t"
  then have "Index lower p \<noteq> - 1" by (auto simp: tokenAfter_def split: if_splits)
  then have "sublist p lower" by (simp add: Index_absent)
  with indexFrom_spec [of p lower 0] obtain a c where fo: "firstOccurrence lower p a c" by auto
  from Index_first [OF fo] ta show "\<exists>a c. firstOccurrence lower p a c \<and> Fields c \<noteq> [] \<and> t = hd (Fields c)"
    using fo by (intro exI [of _ a] exI [of _ c]) (auto simp: tokenAfter_def split: if_splits list.splits)
next
  assume "\<exists>a c. firstOccurrence lower p a c \<and> Fields c \<noteq> [] \<and> t = hd (Fields c)"
  then obtain a c where fo: "firstOccurrence lower p a c" and f: "Fields c \<noteq> []" "t = hd (Fields c)"
    by auto
  from Index_first [OF fo] f show "tokenAfter lower p = Some t"
    by (auto simp: tokenAfter_def split: list.splits)
qed
lemma tokenAfter_None:
  "tokenAfter lower p = None \<longleftrightarrow>
     (\<not> sublist p lower \<or> (\<exists>a c. firstOccurrence lower p a c \<and> Fields c = []))"
proof (cases "sublist p lower")
  case False
  then have "\<not> (\<exists>a c. firstOccurrence lower p a c)"
    by (auto simp: firstOccurrence_def sublist_def)
  with False show ?thesis by (simp add: tokenAfter_def Index_absent)
next
  case True
  with indexFrom_spec [of p lower 0] obtain a c where fo: "firstOccurrence lower p a c" by auto
  have ne: "Index lower p \<noteq> - 1" using True by (simp add: Index_absent)
  have d: "drop (nat (Index lower p + int (length p))) lower = c"
    by (rule conjunct2 [OF Index_first [OF fo]])
  have l: "tokenAfter lower p = None \<longleftrightarrow> Fields c = []"
    using ne by (simp add: tokenAfter_def d split: list.splits)
  have r: "(\<exists>a' c'. firstOccurrence lower p a' c' \<and> Fields c' = []) \<longleftrightarrow> Fields c = []"
  proof
    assume "\<exists>a' c'. firstOccurrence lower p a' c' \<and> Fields c' = []"
    then obtain a' c' where fo': "firstOccurrence lower p a' c'" and e: "Fields c' = []" by blast
    from firstOccurrence_unique [OF fo fo'] e show "Fields c = []" by simp
  next
    assume "Fields c = []"
    with fo show "\<exists>a' c'. firstOccurrence lower p a' c' \<and> Fields c' = []" by blast
  qed
  show ?thesis using True l r by simp
qed
lemma suggestLoop_step:
  "suggestLoop pre lower (p # ps) =
     (case tokenAfter lower p of Some t \<Rightarrow> pre @ t | None \<Rightarrow> suggestLoop pre lower ps)"
  by (auto simp: tokenAfter_def Let_def split: list.splits)
lemma suggestLoop_none:
  "\<forall>p\<in>set ps. tokenAfter lower p = None \<Longrightarrow> suggestLoop pre lower ps = ''''"
  by (induction ps) (simp_all add: suggestLoop_step del: suggestLoop.simps(2))

lemma suggestLoop_first:
  "\<forall>q\<in>set qs. tokenAfter lower q = None \<Longrightarrow> tokenAfter lower p = Some t \<Longrightarrow>
   suggestLoop pre lower (qs @ p # rest) = pre @ t"
  by (induction qs) (simp_all add: suggestLoop_step del: suggestLoop.simps(2))

text \<open>Evaluation of lower-casing on concrete strings.\<close>

lemma char_of_eval:
  "(char_of (n::nat) = c) = (n mod 256 = of_char c)"
  "(c = char_of (n::nat)) = (n mod 256 = of_char c)"
proof -
  show a: "(char_of n = c) = (n mod 256 = of_char c)"
    by (simp add: char_of_eq_iff take_bit_eq_mod)
  show "(c = char_of n) = (n mod 256 = of_char c)"
    using a by (auto simp del: of_char_of)
qed

lemmas hint_eval = extractUpgradeSuggestion_def extractUpgradeSuggestion_box_def patterns_box_def
  suggestedFix_def suggestedFix_box_def hyperlink_def Index_def ToLower_utf8_def isASCII_def
  ToLower_def lowerByte_def
  Fields_def runes_ascii IsSpace_def Let_def char_of_eval

text \<open>
  C2, as the claim states it, fails where a phrase occurs with no token after it. In
  the description below the first phrase of the list that occurs is the fourth,
  "update to version ", at index 19, and nothing follows it; the loop does not stop
  there but goes on to the fifth phrase, and the hint is built from its token instead
  of the fallback being rendered. Likewise, where the first phrase of the list ends the
  description, the second phrase, which is its beginning, takes the word "version" as
  the token.
\<close>

theorem suggestLoop_passes_over_phrase:
  "\<forall>mapLower.
     Index (ToLower_utf8 mapLower (Description vuln_truncated)) ''upgrade to version '' = - 1
     \<and> Index (ToLower_utf8 mapLower (Description vuln_truncated)) ''upgrade to '' = - 1
     \<and> Index (ToLower_utf8 mapLower (Description vuln_truncated)) ''fixed in '' = - 1
     \<and> Index (ToLower_utf8 mapLower (Description vuln_truncated)) ''update to version '' = 19
     \<and> Fields (drop (19 + length ''update to version '')
                  (ToLower_utf8 mapLower (Description vuln_truncated))) = []
     \<and> suggestedFix_box mapLower vuln_truncated = ''Upgrade to version 2.0''
     \<and> Index (ToLower_utf8 mapLower ''Please upgrade to version '') ''upgrade to version '' = 7
     \<and> Fields (drop (7 + length ''upgrade to version '')
                  (ToLower_utf8 mapLower ''Please upgrade to version '')) = []
     \<and> extractUpgradeSuggestion_box mapLower ''Please upgrade to version ''
         = ''Upgrade to version version''"
  by (simp add: vuln_truncated_def hint_eval)

lemma suggestLoop_empty_iff:
  assumes "pre \<noteq> []"
  shows "suggestLoop pre lower ps = [] \<longleftrightarrow> (\<forall>p\<in>set ps. tokenAfter lower p = None)"
proof (induction ps)
  case Nil
  show ?case by simp
next
  case (Cons p ps)
  show ?case
  proof (cases "tokenAfter lower p")
    case None
    then show ?thesis using Cons by (simp add: suggestLoop_step del: suggestLoop.simps(2))
  next
    case (Some t)
    then show ?thesis using assms by (simp add: suggestLoop_step del: suggestLoop.simps(2))
  qed
qed

text \<open>
  C2, amended. The hint is computed on the lower-cased description, so the token is in
  lower case: a description of ASCII bytes is lower-cased byte by byte, any other by
  \<^verbatim>\<open>Map(unicode.ToLower, s)\<close>, and the statement holds whatever that function is. The phrases are tried in the order of the list; a phrase yields a token
  when it occurs and a field follows its first occurrence, the token being the first
  such field. A phrase that does not occur, or that occurs with only white space after
  its first occurrence, is passed over. The hint is the fixed words followed by the
  token of the first phrase in the list that yields one, and it is empty exactly when
  no phrase yields a token; then the renderer prints its fallback. The box programs
  have the five phrases and the words "Upgrade to version "; the table program has four
  phrases ("upgrade to " is not among them), the words "Upgrade to ", and a hyperlink to
  the reference as fallback.
\<close>

theorem upgrade_hint:
  "(isASCII desc \<longrightarrow> ToLower_utf8 mapLower desc = map lowerByte desc)
   \<and> (\<not> isASCII desc \<longrightarrow> ToLower_utf8 mapLower desc = mapLower desc)
   \<and> (extractUpgradeSuggestion_box mapLower desc = []
      \<longleftrightarrow> (\<forall>p\<in>set patterns_box. tokenAfter (ToLower_utf8 mapLower desc) p = None))
   \<and> (patterns_box = qs @ p # rest \<and> (\<forall>q\<in>set qs. tokenAfter (ToLower_utf8 mapLower desc) q = None)
        \<and> tokenAfter (ToLower_utf8 mapLower desc) p = Some t
      \<longrightarrow> extractUpgradeSuggestion_box mapLower desc = ''Upgrade to version '' @ t)
   \<and> (extractUpgradeSuggestion mapLower desc = []
      \<longleftrightarrow> (\<forall>p\<in>set [''upgrade to version '', ''fixed in '', ''update to version '',
                        ''use version '']. tokenAfter (ToLower_utf8 mapLower desc) p = None))
   \<and> ([''upgrade to version '', ''fixed in '', ''update to version '', ''use version '']
         = qs' @ p' # rest'
        \<and> (\<forall>q\<in>set qs'. tokenAfter (ToLower_utf8 mapLower desc) q = None)
        \<and> tokenAfter (ToLower_utf8 mapLower desc) p' = Some t'
      \<longrightarrow> extractUpgradeSuggestion mapLower desc = ''Upgrade to '' @ t')
   \<and> (tokenAfter lower ph = Some tok
      \<longleftrightarrow> (\<exists>a c. firstOccurrence lower ph a c \<and> Fields c \<noteq> [] \<and> tok = hd (Fields c)))
   \<and> (tokenAfter lower ph = None
      \<longleftrightarrow> (\<not> sublist ph lower \<or> (\<exists>a c. firstOccurrence lower ph a c \<and> Fields c = [])))
   \<and> suggestedFix_box mapLower v =
        (if extractUpgradeSuggestion_box mapLower (Description v) = []
         then ''Check latest version at reference URL.''
         else extractUpgradeSuggestion_box mapLower (Description v))
   \<and> suggestedFix mapLower v =
        (if extractUpgradeSuggestion mapLower (Description v) = []
         then hyperlink ''Check reference URL'' (Reference v)
         else extractUpgradeSuggestion mapLower (Description v))"
proof (intro conjI)
  show "isASCII desc \<longrightarrow> ToLower_utf8 mapLower desc = map lowerByte desc"
    by (simp add: ToLower_utf8_def ToLower_def)
  show "\<not> isASCII desc \<longrightarrow> ToLower_utf8 mapLower desc = mapLower desc"
    by (simp add: ToLower_utf8_def)
  show "extractUpgradeSuggestion_box mapLower desc = []
      \<longleftrightarrow> (\<forall>p\<in>set patterns_box. tokenAfter (ToLower_utf8 mapLower desc) p = None)"
    unfolding extractUpgradeSuggestion_box_def by (rule suggestLoop_empty_iff) simp
  show "patterns_box = qs @ p # rest \<and> (\<forall>q\<in>set qs. tokenAfter (ToLower_utf8 mapLower desc) q = None)
        \<and> tokenAfter (ToLower_utf8 mapLower desc) p = Some t
      \<longrightarrow> extractUpgradeSuggestion_box mapLower desc = ''Upgrade to version '' @ t"
  proof
    assume a: "patterns_box = qs @ p # rest \<and> (\<forall>q\<in>set qs. tokenAfter (ToLower_utf8 mapLower desc) q = None)
        \<and> tokenAfter (ToLower_utf8 mapLower desc) p = Some t"
    then have "suggestLoop ''Upgrade to version '' (ToLower_utf8 mapLower desc) (qs @ p # rest)
                 = ''Upgrade to version '' @ t"
      by (intro suggestLoop_first) simp_all
    with a show "extractUpgradeSuggestion_box mapLower desc = ''Upgrade to version '' @ t"
      by (simp add: extractUpgradeSuggestion_box_def)
  qed
  show "extractUpgradeSuggestion mapLower desc = []
      \<longleftrightarrow> (\<forall>p\<in>set [''upgrade to version '', ''fixed in '', ''update to version '',
                        ''use version '']. tokenAfter (ToLower_utf8 mapLower desc) p = None)"
    unfolding extractUpgradeSuggestion_def by (rule suggestLoop_empty_iff) simp
  show "[''upgrade to version '', ''fixed in '', ''update to version '', ''use version '']
         = qs' @ p' # rest'
        \<and> (\<forall>q\<in>set qs'. tokenAfter (ToLower_utf8 mapLower desc) q = None)
        \<and> tokenAfter (ToLower_utf8 mapLower desc) p' = Some t'
      \<longrightarrow> extractUpgradeSuggestion mapLower desc = ''Upgrade to '' @ t'"
  proof
    assume a: "[''upgrade to version '', ''fixed in '', ''update to version '', ''use version '']
         = qs' @ p' # rest'
        \<and> (\<forall>q\<in>set qs'. tokenAfter (ToLower_utf8 mapLower desc) q = None)
        \<and> tokenAfter (ToLower_utf8 mapLower desc) p' = Some t'"
    then have "suggestLoop ''Upgrade to '' (ToLower_utf8 mapLower desc) (qs' @ p' # rest') = ''Upgrade to '' @ t'"
      by (intro suggestLoop_first) simp_all
    with a show "extractUpgradeSuggestion mapLower desc = ''Upgrade to '' @ t'"
      unfolding extractUpgradeSuggestion_def by (simp only:)
  qed
  show "tokenAfter lower ph = Some tok
      \<longleftrightarrow> (\<exists>a c. firstOccurrence lower ph a c \<and> Fields c \<noteq> [] \<and> tok = hd (Fields c))"
    by (rule tokenAfter_Some)
  show "tokenAfter lower ph = None
      \<longleftrightarrow> (\<not> sublist ph lower \<or> (\<exists>a c. firstOccurrence lower ph a c \<and> Fields c = []))"
    by (rule tokenAfter_None)
  show "suggestedFix_box mapLower v =
        (if extractUpgradeSuggestion_box mapLower (Description v) = []
         then ''Check latest version at reference URL.''
         else extractUpgradeSuggestion_box mapLower (Description v))"
    by (simp add: suggestedFix_box_def Let_def)
  show "suggestedFix mapLower v =
        (if extractUpgradeSuggestion mapLower (Description v) = []
         then hyperlink ''Check reference URL'' (Reference v)
         else extractUpgradeSuggestion mapLower (Description v))"
    by (simp add: suggestedFix_def Let_def)
qed


theorem upgrade_hint_witness:
  "(\<forall>mapLower.
      extractUpgradeSuggestion_box mapLower ''The issue was Fixed in 2.3.1 after a report''
        = ''Upgrade to version 2.3.1''
      \<and> extractUpgradeSuggestion mapLower ''The issue was Fixed in 2.3.1 after a report''
        = ''Upgrade to 2.3.1''
      \<and> extractUpgradeSuggestion_box mapLower ''No fix is known'' = []
      \<and> suggestedFix_box mapLower (vuln_truncated\<lparr>Description := ''No fix is known''\<rparr>)
        = ''Check latest version at reference URL.'')
   \<and> \<not> isASCII desc_dotted
   \<and> ToLower_utf8 lower_dotted desc_dotted = ''fixed in 2.0''
   \<and> extractUpgradeSuggestion lower_dotted desc_dotted = ''Upgrade to 2.0''
   \<and> extractUpgradeSuggestion_box lower_dotted desc_dotted = ''Upgrade to version 2.0''"
proof -
  let ?d = "''The issue was Fixed in 2.3.1 after a report''"
  let ?n = "''No fix is known''"
  let ?v = "vuln_truncated\<lparr>Description := ?n\<rparr>"
  have ascii: "isASCII ?d" "isASCII ?n"
    by (simp_all add: isASCII_def)
  have lb: "map lowerByte ?d = ''the issue was fixed in 2.3.1 after a report''"
    "map lowerByte ?n = ''no fix is known''"
    by (simp_all add: lowerByte_def char_of_eval)
  have low: "ToLower_utf8 m ?d = ''the issue was fixed in 2.3.1 after a report''"
    "ToLower_utf8 m ?n = ''no fix is known''" for m
    using upgrade_hint [where desc = ?d and mapLower = m, THEN conjunct1]
      upgrade_hint [where desc = ?n and mapLower = m, THEN conjunct1] ascii
    by (simp_all only: lb)
  have tok: "tokenAfter (ToLower_utf8 m ?d) ''upgrade to version '' = None"
    "tokenAfter (ToLower_utf8 m ?d) ''upgrade to '' = None"
    "tokenAfter (ToLower_utf8 m ?d) ''fixed in '' = Some ''2.3.1''" for m
    unfolding low by (simp_all add: tokenAfter_def Index_def Fields_def runes_ascii IsSpace_def)
  have none: "\<forall>p\<in>set patterns_box. tokenAfter (ToLower_utf8 m ?n) p = None" for m
    unfolding low
    by (simp add: patterns_box_def tokenAfter_def Index_def Fields_def runes_ascii IsSpace_def)
  have 1: "extractUpgradeSuggestion_box m ?d = ''Upgrade to version '' @ ''2.3.1''" for m
    using upgrade_hint [where desc = ?d and mapLower = m
        and qs = "[''upgrade to version '', ''upgrade to '']" and p = "''fixed in ''"
        and rest = "[''update to version '', ''use version '']" and t = "''2.3.1''",
        THEN conjunct2, THEN conjunct2, THEN conjunct2, THEN conjunct1] tok
    by (simp add: patterns_box_def)
  have 2: "extractUpgradeSuggestion m ?d = ''Upgrade to '' @ ''2.3.1''" for m
    using upgrade_hint [where desc = ?d and mapLower = m
        and qs' = "[''upgrade to version '']" and p' = "''fixed in ''"
        and rest' = "[''update to version '', ''use version '']" and t' = "''2.3.1''",
        THEN conjunct2, THEN conjunct2, THEN conjunct2, THEN conjunct2, THEN conjunct2,
        THEN conjunct1] tok
    by simp
  have 3: "extractUpgradeSuggestion_box m ?n = []" for m
    using upgrade_hint [where desc = ?n and mapLower = m, THEN conjunct2, THEN conjunct2,
        THEN conjunct1] none by simp
  have 4: "suggestedFix_box m ?v = ''Check latest version at reference URL.''" for m
    using upgrade_hint [where v = ?v and mapLower = m, THEN conjunct2, THEN conjunct2,
        THEN conjunct2, THEN conjunct2, THEN conjunct2, THEN conjunct2, THEN conjunct2,
        THEN conjunct2, THEN conjunct1] 3
    by simp
  have na: "\<not> isASCII desc_dotted"
    by (simp add: isASCII_def desc_dotted_def)
  have lowd: "ToLower_utf8 lower_dotted desc_dotted = ''fixed in 2.0''"
    using upgrade_hint [where desc = desc_dotted and mapLower = lower_dotted,
        THEN conjunct2, THEN conjunct1] na
    by (simp add: lower_dotted_def)
  have tokd: "tokenAfter (ToLower_utf8 lower_dotted desc_dotted) ''upgrade to version '' = None"
    "tokenAfter (ToLower_utf8 lower_dotted desc_dotted) ''upgrade to '' = None"
    "tokenAfter (ToLower_utf8 lower_dotted desc_dotted) ''fixed in '' = Some ''2.0''"
    unfolding lowd by (simp_all add: tokenAfter_def Index_def Fields_def runes_ascii IsSpace_def)
  have 5: "extractUpgradeSuggestion lower_dotted desc_dotted = ''Upgrade to '' @ ''2.0''"
    using upgrade_hint [where desc = desc_dotted and mapLower = lower_dotted
        and qs' = "[''upgrade to version '']" and p' = "''fixed in ''"
        and rest' = "[''update to version '', ''use version '']" and t' = "''2.0''",
        THEN conjunct2, THEN conjunct2, THEN conjunct2, THEN conjunct2, THEN conjunct2,
        THEN conjunct1] tokd
    by simp
  have 6: "extractUpgradeSuggestion_box lower_dotted desc_dotted
             = ''Upgrade to version '' @ ''2.0''"
    using upgrade_hint [where desc = desc_dotted and mapLower = lower_dotted
        and qs = "[''upgrade to version '', ''upgrade to '']" and p = "''fixed in ''"
        and rest = "[''update to version '', ''use version '']" and t = "''2.0''",
        THEN conjunct2, THEN conjunct2, THEN conjunct2, THEN conjunct1] tokd
    by (simp add: patterns_box_def)
  show ?thesis using 1 2 3 4 na lowd 5 6 by simp
qed

end
